theory Spec2Isabelle
  imports Main
begin

section \<open>Help-desk record server: the model\<close>

text \<open>
  The server keeps a JSON file of records, an in-memory set of developer tokens and the
  timers that expire them. Every handler is a function from the server state to a response
  and the next state. The modelling decisions:

  \<^item> A JavaScript string is a list of code units; the model uses \<^typ>\<open>string\<close>, that is
    code units below 256.
  \<^item> A JavaScript number is a double. The numbers of the program are integers, and the
    model has them as \<^typ>\<open>int\<close>: where the program computes a number (\<open>max + 1\<close>,
    \<open>parseInt\<close>), the model rounds the exact result to the nearest double, which changes
    it from \<open>2^53\<close> on. The ids of a stored file are the numbers that \<open>JSON.parse\<close>
    returned.
  \<^item> A call with a spread array takes one argument for each element, and the engine
    throws a \<open>RangeError\<close> when there are more arguments than its stack takes. That
    number is a component of the state.
  \<^item> The statistics handler reads the clock twice. The time that passes between the two
    readings is a component of the state; every other handler reads the clock once.
  \<^item> A request field is \<^typ>\<open>string option\<close>: \<open>None\<close> is a field that is absent
    (\<open>undefined\<close>). The handlers are specified for text fields; other JSON values are not
    modelled.
  \<^item> The backing file is modelled by what \<open>fs.readFile\<close> and \<open>JSON.parse\<close> make of it:
    no file, a file that cannot be read, text that is not JSON, or the array of records
    that the text denotes. \<open>JSON.stringify\<close> followed by \<open>JSON.parse\<close> gives the records
    back, so a write stores the records themselves.
  \<^item> Whether \<open>fs.writeFile\<close> succeeds is a component of the state; a failed write
    leaves the file as it was.
  \<^item> Every access to the file is appended to a log, so that "the store is not touched"
    is a statement about the state.
  \<^item> Time passes between requests (\<open>tick\<close>), and a timer fires as soon as the clock
    reaches its due time.
\<close>

subsection \<open>Strings and numbers\<close>

definition isDigit :: "char \<Rightarrow> bool" where
  "isDigit c = (c \<in> set ''0123456789'')"

definition isHexDigit :: "char \<Rightarrow> bool" where
  "isHexDigit c = (c \<in> set ''0123456789abcdefABCDEF'')"

text \<open>White space and line terminators of ECMAScript, among the code units below 256:
  TAB, LF, VT, FF, CR, SP and NBSP.\<close>

definition isWhiteSpace :: "char \<Rightarrow> bool" where
  "isWhiteSpace c = (c \<in> set [CHR 0x09, CHR 0x0A, CHR 0x0B, CHR 0x0C, CHR 0x0D, CHR 0x20, CHR 0xA0])"

definition trimStart :: "string \<Rightarrow> string" where
  "trimStart s = dropWhile isWhiteSpace s"

text \<open>\<open>String.prototype.trim\<close>.\<close>

definition trim :: "string \<Rightarrow> string" where
  "trim s = rev (trimStart (rev (trimStart s)))"

definition digitVal :: "char \<Rightarrow> nat" where
  "digitVal c =
     (if isDigit c then of_char c - 48
      else if c \<in> set ''abcdef'' then of_char c - 87
      else of_char c - 55)"

text \<open>The value of a digit string in a radix, most significant digit first.\<close>

definition digitsValue :: "nat \<Rightarrow> string \<Rightarrow> nat" where
  "digitsValue radix z = foldl (\<lambda>a c. radix * a + digitVal c) 0 z"

text \<open>The number of binary digits of a natural number.\<close>

fun bitLength :: "nat \<Rightarrow> nat" where
  "bitLength n = (if n = 0 then 0 else Suc (bitLength (n div 2)))"

declare bitLength.simps [simp del]

text \<open>
  The double nearest to an integer: the integer itself when it has at most 53 binary
  digits; otherwise its leading 53 digits, rounded to nearest, to even on a tie (the
  exponent taken as unbounded).
\<close>

definition roundToDouble :: "int \<Rightarrow> int" where
  "roundToDouble v =
     (let a = nat \<bar>v\<bar>;
          u = 2 ^ (bitLength a - 53);
          q = a div u;
          r = a mod u;
          q' = (if 2 * r < u \<or> (2 * r = u \<and> even q) then q else q + 1)
      in sgn v * int (q' * u))"

text \<open>The number that an integer becomes: \<open>None\<close> when it rounds to an infinity.\<close>

definition toNumber :: "int \<Rightarrow> int option" where
  "toNumber v = (let d = roundToDouble v in if \<bar>d\<bar> < 2 ^ 1024 then Some d else None)"

text \<open>
  \<open>parseInt(string)\<close> with the radix left out: leading white space is skipped, a sign is
  read, a prefix \<open>0x\<close> or \<open>0X\<close> selects radix 16 (radix 10 otherwise), and the longest run
  of digits of the radix is the value, as a number: the double nearest to the integer
  that the digits denote, which is that integer up to \<open>2^53\<close>. \<open>None\<close> is \<open>NaN\<close> (no digit
  at that place) or an infinity: a number that is equal to no id.
\<close>

definition parseInt :: "string \<Rightarrow> int option" where
  "parseInt input =
     (let s = trimStart input;
          neg = (take 1 s = ''-'');
          s1 = (if take 1 s = ''+'' \<or> take 1 s = ''-'' then drop 1 s else s);
          hex = (take 2 s1 = ''0x'' \<or> take 2 s1 = ''0X'');
          s2 = (if hex then drop 2 s1 else s1);
          z = takeWhile (if hex then isHexDigit else isDigit) s2
      in if z = [] then None
         else (let n = int (digitsValue (if hex then 16 else 10) z)
               in toNumber (if neg then - n else n)))"

text \<open>The exceptions of the program.\<close>

datatype js_error = ENOENT | EACCES | SyntaxError | EIO | RangeError

text \<open>\<open>Math.max\<close> of a non-empty argument list (the handler calls it on nothing else):
  the largest argument, which is exact.\<close>

fun Math_max :: "int list \<Rightarrow> int" where
  "Math_max [x] = x"
| "Math_max (x # y # ys) = max x (Math_max (y # ys))"

text \<open>\<open>Math.max(...args)\<close>: the call throws when the array has more elements than the
  engine takes as arguments.\<close>

definition Math_max_spread :: "nat \<Rightarrow> int list \<Rightarrow> js_error + int" where
  "Math_max_spread limit args =
     (if limit < length args then Inl RangeError else Inr (Math_max args))"

text \<open>\<open>Array.prototype.findIndex\<close>: the first index whose element satisfies the test,
  \<open>-1\<close> when there is none.\<close>

fun findIndexFrom :: "int \<Rightarrow> ('a \<Rightarrow> bool) \<Rightarrow> 'a list \<Rightarrow> int" where
  "findIndexFrom k P [] = - 1"
| "findIndexFrom k P (x # xs) = (if P x then k else findIndexFrom (k + 1) P xs)"

definition findIndex :: "('a \<Rightarrow> bool) \<Rightarrow> 'a list \<Rightarrow> int" where
  "findIndex P xs = findIndexFrom 0 P xs"

text \<open>\<open>xs.splice(index, 1)\<close> for an index that \<open>findIndex\<close> found.\<close>

definition splice1 :: "int \<Rightarrow> 'a list \<Rightarrow> 'a list" where
  "splice1 index xs = take (nat index) xs @ drop (nat index + 1) xs"

subsection \<open>Records, the backing file and the server state\<close>

record help_record =
  id_field :: int
  vendorName :: string
  location :: string
  phone :: string
  issue :: string
  date :: string

datatype file_text = NotJson | JsonRecords "help_record list"

datatype file_state = Absent | Unreadable | Content file_text

datatype fs_op = ReadFile | WriteFile "help_record list"

record server =
  dataFile :: file_state
  writable :: bool
  maxArguments :: nat
  readDelay :: nat
  validTokens :: "string set"
  timers :: "(int \<times> string) list"
  clock :: int
  fsLog :: "fs_op list"

datatype body =
    Message string
  | MessageError string js_error
  | MessageToken string string
  | MessageRecord string help_record
  | RecordList "help_record list"
  | StatsBody nat nat nat

type_synonym response = "nat \<times> body"

subsection \<open>The store\<close>

definition fs_readFile :: "file_state \<Rightarrow> js_error + file_text" where
  "fs_readFile f = (case f of Absent \<Rightarrow> Inl ENOENT | Unreadable \<Rightarrow> Inl EACCES | Content t \<Rightarrow> Inr t)"

definition JSON_parse :: "file_text \<Rightarrow> js_error + help_record list" where
  "JSON_parse t = (case t of NotJson \<Rightarrow> Inl SyntaxError | JsonRecords rs \<Rightarrow> Inr rs)"

text \<open>\<open>readRecords\<close>: both the read and the parse are inside the \<open>try\<close>; the \<open>catch\<close>
  returns the empty array.\<close>

definition readRecords :: "server \<Rightarrow> help_record list \<times> server" where
  "readRecords s =
     (let s' = s\<lparr>fsLog := fsLog s @ [ReadFile]\<rparr>
      in case fs_readFile (dataFile s) of
           Inl e \<Rightarrow> ([], s')
         | Inr data \<Rightarrow> (case JSON_parse data of Inl e \<Rightarrow> ([], s') | Inr rs \<Rightarrow> (rs, s')))"

text \<open>\<open>writeRecords\<close>: the whole file is replaced; \<open>Some e\<close> is the exception of a
  write that failed.\<close>

definition writeRecords :: "help_record list \<Rightarrow> server \<Rightarrow> js_error option \<times> server" where
  "writeRecords rs s =
     (let s' = s\<lparr>fsLog := fsLog s @ [WriteFile rs]\<rparr>
      in if writable s then (None, s'\<lparr>dataFile := Content (JsonRecords rs)\<rparr>)
         else (Some EIO, s'))"

subsection \<open>Dates\<close>

text \<open>
  A time value is a number of milliseconds since 1970-01-01T00:00Z. The civil date of a
  day number follows the proleptic Gregorian calendar.
\<close>

definition msPerDay :: int where
  "msPerDay = 86400000"

definition Day :: "int \<Rightarrow> int" where
  "Day t = t div msPerDay"

definition TimeWithinDay :: "int \<Rightarrow> int" where
  "TimeWithinDay t = t mod msPerDay"

text \<open>The year that starts on 1 March (numbered by the civil year of that March) and the
  day within it, from 0: 400 years are 146097 days, a century 36524 days (the fourth
  one more), four years 1461 days, a year 365 days (the fourth one more).\<close>

definition marchYear :: "int \<Rightarrow> int \<times> int" where
  "marchYear z =
     (let z' = z + 719468;
          era = z' div 146097;
          doe = z' mod 146097;
          cent = min 3 (doe div 36524);
          doc = doe - cent * 36524;
          quad = doc div 1461;
          doq = doc mod 1461;
          yoq = min 3 (doq div 365)
      in (era * 400 + cent * 100 + quad * 4 + yoq, doq - yoq * 365))"

text \<open>Year, month (from 1) and day of the month (from 1) of a day number.\<close>

definition civil :: "int \<Rightarrow> int \<times> int \<times> int" where
  "civil z =
     (case marchYear z of (y, doy) \<Rightarrow>
        (let mp = (5 * doy + 2) div 153;
             d = doy - (153 * mp + 2) div 5 + 1;
             m = (if mp < 10 then mp + 3 else mp - 9)
         in (if m \<le> 2 then y + 1 else y, m, d)))"


definition WeekDay :: "int \<Rightarrow> int" where
  "WeekDay t = (Day t + 4) mod 7"

definition digitChar :: "nat \<Rightarrow> char" where
  "digitChar n = ''0123456789'' ! (n mod 10)"

fun dec :: "nat \<Rightarrow> string" where
  "dec n = (if n < 10 then [digitChar n] else dec (n div 10) @ [digitChar (n mod 10)])"

declare dec.simps [simp del]

text \<open>The decimal rendering of an integer, as a template literal gives it.\<close>

definition showInt :: "int \<Rightarrow> string" where
  "showInt i = (if i < 0 then ''-'' @ dec (nat (- i)) else dec (nat i))"

definition padStart :: "nat \<Rightarrow> string \<Rightarrow> string" where
  "padStart n s = replicate (n - length s) (CHR ''0'') @ s"

definition pad :: "nat \<Rightarrow> int \<Rightarrow> string" where
  "pad n i = padStart n (dec (nat i))"

text \<open>The year of the ISO format: four digits from 0 to 9999, a sign and six digits
  otherwise.\<close>

definition isoYear :: "int \<Rightarrow> string" where
  "isoYear y =
     (if 0 \<le> y \<and> y \<le> 9999 then pad 4 y
      else (if y < 0 then ''-'' else ''+'') @ pad 6 \<bar>y\<bar>)"

definition isoString :: "int \<Rightarrow> string" where
  "isoString t =
     (case civil (Day t) of (y, m, d) \<Rightarrow>
        (let ms = TimeWithinDay t
         in isoYear y @ ''-'' @ pad 2 m @ ''-'' @ pad 2 d @ ''T''
            @ pad 2 (ms div 3600000) @ '':'' @ pad 2 (ms div 60000 mod 60) @ '':''
            @ pad 2 (ms div 1000 mod 60) @ ''.'' @ pad 3 (ms mod 1000) @ ''Z''))"

definition dayNames :: "string list" where
  "dayNames = [''Sun'', ''Mon'', ''Tue'', ''Wed'', ''Thu'', ''Fri'', ''Sat'']"

definition monthNames :: "string list" where
  "monthNames = [''Jan'', ''Feb'', ''Mar'', ''Apr'', ''May'', ''Jun'',
                 ''Jul'', ''Aug'', ''Sep'', ''Oct'', ''Nov'', ''Dec'']"

text \<open>The year of the date string: at least four digits, after a minus sign when the year
  is negative.\<close>

definition yearPart :: "int \<Rightarrow> string" where
  "yearPart y = (if 0 \<le> y then [] else ''-'') @ pad 4 \<bar>y\<bar>"

text \<open>The date string of a local time value: week day, month, day and year.\<close>

definition dateString :: "int \<Rightarrow> string" where
  "dateString t =
     (case civil (Day t) of (y, m, d) \<Rightarrow>
        dayNames ! nat (WeekDay t) @ '' '' @ monthNames ! nat (m - 1) @ '' '' @ pad 2 d
        @ '' '' @ yearPart y)"

text \<open>
  A \<open>Date\<close> object holds a time value or is invalid. \<open>new Date(string)\<close> parses with the
  host's parser, a parameter of the model: \<open>None\<close> is a string that it does not
  recognise. A time value is at most 100 million days away from 1970: the constructor
  makes a date beyond that invalid. The local time is the time value plus the host's
  offset at that time, the second parameter.
\<close>

datatype js_date = ValidDate int | InvalidDate

definition maxTime :: int where
  "maxTime = 8640000000000000"

definition new_Date :: "(string \<Rightarrow> int option) \<Rightarrow> string \<Rightarrow> js_date" where
  "new_Date parse str =
     (case parse str of
        Some t \<Rightarrow> if \<bar>t\<bar> \<le> maxTime then ValidDate t else InvalidDate
      | None \<Rightarrow> InvalidDate)"

definition toDateString :: "(int \<Rightarrow> int) \<Rightarrow> js_date \<Rightarrow> string" where
  "toDateString tz d =
     (case d of InvalidDate \<Rightarrow> ''Invalid Date'' | ValidDate t \<Rightarrow> dateString (t + tz t))"

text \<open>\<open>toISOString\<close> throws a \<open>RangeError\<close> on an invalid date.\<close>

definition toISOString :: "js_date \<Rightarrow> js_error + string" where
  "toISOString d = (case d of InvalidDate \<Rightarrow> Inl RangeError | ValidDate t \<Rightarrow> Inr (isoString t))"

subsection \<open>The token registry\<close>

definition DEVELOPER_CODES :: "string list" where
  "DEVELOPER_CODES = [''letmein'', ''DEV-ECG-2024-ALPHA'', ''ECG-DEV-ADMIN-001'', ''ECG-IT-DEV-ACCESS'']"

definition base36 :: "nat \<Rightarrow> char" where
  "base36 d = ''0123456789abcdefghijklmnopqrstuvwxyz'' ! (d mod 36)"

text \<open>
  \<open>Math.random().toString(36)\<close> is \<open>0.\<close> followed by the digits of the fraction in base
  36; the digits are a parameter of the login request. (For the result 0 the string is
  \<open>0\<close> alone, and \<open>substr(2, 9)\<close> is empty as it is here for no digits.)
\<close>

definition randomString :: "nat list \<Rightarrow> string" where
  "randomString frac = ''0.'' @ map base36 frac"

definition substr :: "nat \<Rightarrow> nat \<Rightarrow> string \<Rightarrow> string" where
  "substr start len s = take len (drop start s)"

definition makeToken :: "int \<Rightarrow> nat list \<Rightarrow> string" where
  "makeToken now frac = ''dev_token_'' @ showInt now @ ''_'' @ substr 2 9 (randomString frac)"

definition tokenLifetime :: int where
  "tokenLifetime = 24 * 60 * 60 * 1000"

text \<open>\<open>!v\<close> for a value that is a string or \<open>undefined\<close>.\<close>

definition falsy :: "string option \<Rightarrow> bool" where
  "falsy v = (case v of None \<Rightarrow> True | Some str \<Rightarrow> str = [])"

text \<open>\<open>POST /api/dev-login\<close>: the token is added to the set and a timer that deletes it
  is set.\<close>

definition devLogin :: "string option \<Rightarrow> nat list \<Rightarrow> server \<Rightarrow> response \<times> server" where
  "devLogin code frac s =
     (if falsy code \<or> the code \<notin> set DEVELOPER_CODES
      then ((401, Message ''Invalid developer code''), s)
      else (let token = makeToken (clock s) frac
            in ((200, MessageToken ''Developer access granted'' token),
                s\<lparr>validTokens := insert token (validTokens s),
                  timers := timers s @ [(clock s + tokenLifetime, token)]\<rparr>)))"

text \<open>Time passes: every timer that is due fires and deletes its token.\<close>

definition tick :: "nat \<Rightarrow> server \<Rightarrow> server" where
  "tick dt s =
     (let now = clock s + int dt;
          due = filter (\<lambda>(t, token). t \<le> now) (timers s)
      in s\<lparr>clock := now,
           validTokens := validTokens s - set (map snd due),
           timers := filter (\<lambda>(t, token). \<not> t \<le> now) (timers s)\<rparr>)"

subsection \<open>The handlers\<close>

text \<open>The token of the header: \<open>null\<close> unless the header is there and starts with the
  scheme.\<close>

definition bearerToken :: "string option \<Rightarrow> string option" where
  "bearerToken authHeader =
     (case authHeader of
        None \<Rightarrow> None
      | Some h \<Rightarrow> if h \<noteq> [] \<and> take 7 h = ''Bearer '' then Some (drop 7 h) else None)"

definition checkDeveloperAuth ::
  "string option \<Rightarrow> (server \<Rightarrow> response \<times> server) \<Rightarrow> server \<Rightarrow> response \<times> server" where
  "checkDeveloperAuth authHeader next s =
     (let token = bearerToken authHeader
      in if falsy token \<or> the token \<notin> validTokens s
         then ((401, Message ''Unauthorized - Developer access required''), s)
         else next s)"

text \<open>\<open>GET /api/records\<close>: the middleware, then the listing.\<close>

definition listRecords :: "server \<Rightarrow> response \<times> server" where
  "listRecords s = (case readRecords s of (records, s1) \<Rightarrow> ((200, RecordList records), s1))"

definition getRecords :: "string option \<Rightarrow> server \<Rightarrow> response \<times> server" where
  "getRecords authHeader = checkDeveloperAuth authHeader listRecords"

text \<open>The pattern \<open>^(\+233|0)[0-9]{9}$\<close>.\<close>

definition nineDigits :: "string \<Rightarrow> bool" where
  "nineDigits ds = (length ds = 9 \<and> list_all isDigit ds)"

definition phonePattern_test :: "string \<Rightarrow> bool" where
  "phonePattern_test p =
     ((take 4 p = ''+233'' \<and> nineDigits (drop 4 p)) \<or> (take 1 p = ''0'' \<and> nineDigits (drop 1 p)))"

text \<open>The id of the new record: \<open>max + 1\<close> is a double.\<close>

definition nextId :: "nat \<Rightarrow> help_record list \<Rightarrow> js_error + int" where
  "nextId limit records =
     (if length records > 0
      then (case Math_max_spread limit
                   (map (\<lambda>r. if id_field r \<noteq> 0 then id_field r else 0) records) of
              Inl e \<Rightarrow> Inl e
            | Inr m \<Rightarrow> Inr (roundToDouble (m + 1)))
      else Inr 1)"

text \<open>\<open>POST /api/records\<close>.\<close>

definition createRecord ::
  "string option \<Rightarrow> string option \<Rightarrow> string option \<Rightarrow> string option \<Rightarrow> server
     \<Rightarrow> response \<times> server" where
  "createRecord vendorName' location' phone' issue' s =
     (if falsy vendorName' \<or> falsy location' \<or> falsy phone' \<or> falsy issue'
      then ((400, Message ''All fields are required''), s)
      else if \<not> phonePattern_test (the phone')
      then ((400, Message ''Invalid Ghanaian phone number format''), s)
      else (case readRecords s of (records, s1) \<Rightarrow>
        (case nextId (maxArguments s) records of
           Inl e \<Rightarrow> ((500, MessageError ''Error creating record'' e), s1)
         | Inr newId \<Rightarrow>
             (let newRecord = \<lparr>id_field = newId,
                               vendorName = trim (the vendorName'),
                               location = trim (the location'),
                               phone = trim (the phone'),
                               issue = trim (the issue'),
                               date = isoString (clock s)\<rparr>
              in case writeRecords (records @ [newRecord]) s1 of
                   (Some e, s2) \<Rightarrow> ((500, MessageError ''Error creating record'' e), s2)
                 | (None, s2) \<Rightarrow>
                     ((201, MessageRecord ''Record created successfully'' newRecord), s2)))))"

text \<open>\<open>DELETE /api/records/:id\<close>: the middleware, then the removal. \<open>NaN\<close> is equal to
  no id.\<close>

definition removeRecord :: "string \<Rightarrow> server \<Rightarrow> response \<times> server" where
  "removeRecord idParam s =
     (let recordId = parseInt idParam
      in case readRecords s of (records, s1) \<Rightarrow>
        (let index = findIndex (\<lambda>r. Some (id_field r) = recordId) records
         in if index = - 1 then ((404, Message ''Record not found''), s1)
            else (case writeRecords (splice1 index records) s1 of
                    (Some e, s2) \<Rightarrow> ((500, MessageError ''Error deleting record'' e), s2)
                  | (None, s2) \<Rightarrow> ((200, Message ''Record deleted successfully''), s2))))"

definition deleteRecord :: "string option \<Rightarrow> string \<Rightarrow> server \<Rightarrow> response \<times> server" where
  "deleteRecord authHeader idParam = checkDeveloperAuth authHeader (removeRecord idParam)"

text \<open>The loop of the statistics: the two counters, or the exception that ends it.\<close>

fun countRecords ::
  "(string \<Rightarrow> int option) \<Rightarrow> (int \<Rightarrow> int) \<Rightarrow> string \<Rightarrow> string \<Rightarrow> help_record list
     \<Rightarrow> nat \<times> nat \<Rightarrow> js_error + nat \<times> nat" where
  "countRecords parse tz today thisMonth [] counts = Inr counts"
| "countRecords parse tz today thisMonth (r # rs) (todayCount, monthCount) =
     (let recordDate = new_Date parse (date r);
          todayCount' = (if toDateString tz recordDate = today then todayCount + 1 else todayCount)
      in case toISOString recordDate of
           Inl e \<Rightarrow> Inl e
         | Inr isoStr \<Rightarrow>
             countRecords parse tz today thisMonth rs
               (todayCount', if take 7 isoStr = thisMonth then monthCount + 1 else monthCount))"

text \<open>\<open>GET /api/stats\<close>: the middleware, then the statistics. The day is taken from the
  first reading of the clock, the month from the second.\<close>

definition statistics ::
  "(string \<Rightarrow> int option) \<Rightarrow> (int \<Rightarrow> int) \<Rightarrow> server \<Rightarrow> response \<times> server" where
  "statistics parse tz s =
     (case readRecords s of (records, s1) \<Rightarrow>
        (let today = toDateString tz (ValidDate (clock s))
         in case toISOString (ValidDate (clock s + int (readDelay s))) of
              Inl e \<Rightarrow> ((500, MessageError ''Error getting statistics'' e), s1)
            | Inr isoStr \<Rightarrow>
                (case countRecords parse tz today (take 7 isoStr) records (0, 0) of
                   Inl e \<Rightarrow> ((500, MessageError ''Error getting statistics'' e), s1)
                 | Inr (todayCount, monthCount) \<Rightarrow>
                     ((200, StatsBody (length records) todayCount monthCount), s1))))"

definition getStats ::
  "(string \<Rightarrow> int option) \<Rightarrow> (int \<Rightarrow> int) \<Rightarrow> string option \<Rightarrow> server \<Rightarrow> response \<times> server" where
  "getStats parse tz authHeader = checkDeveloperAuth authHeader (statistics parse tz)"

subsection \<open>The counts in the words of the specification\<close>




subsection \<open>Runs of the server\<close>

datatype event =
    DevLogin "string option" "nat list"
  | GetRecords "string option"
  | PostRecord "string option" "string option" "string option" "string option"
  | DeleteRecord "string option" string
  | GetStats "string option"
  | Tick nat

fun step :: "(string \<Rightarrow> int option) \<Rightarrow> (int \<Rightarrow> int) \<Rightarrow> event \<Rightarrow> server \<Rightarrow> server" where
  "step parse tz (DevLogin code frac) s = snd (devLogin code frac s)"
| "step parse tz (GetRecords h) s = snd (getRecords h s)"
| "step parse tz (PostRecord v l p i) s = snd (createRecord v l p i s)"
| "step parse tz (DeleteRecord h idParam) s = snd (deleteRecord h idParam s)"
| "step parse tz (GetStats h) s = snd (getStats parse tz h s)"
| "step parse tz (Tick dt) s = tick dt s"

definition run :: "(string \<Rightarrow> int option) \<Rightarrow> (int \<Rightarrow> int) \<Rightarrow> event list \<Rightarrow> server \<Rightarrow> server" where
  "run parse tz evs s = foldl (\<lambda>s' ev. step parse tz ev s') s evs"

text \<open>A server that has just started: no token, no timer, no access to the file yet.\<close>

definition started :: "server \<Rightarrow> bool" where
  "started s = (validTokens s = {} \<and> timers s = [] \<and> fsLog s = [])"

text \<open>The collection that a load gives.\<close>

definition stored :: "server \<Rightarrow> help_record list" where
  "stored s = fst (readRecords s)"


subsection \<open>Predicates on the ids\<close>


subsection \<open>Predicates on the registry\<close>

text \<open>The condition of the specification for refusing a privileged request: no header,
  a header without the scheme, or a token that is not in the set.\<close>

definition unauthorized :: "string option \<Rightarrow> server \<Rightarrow> bool" where
  "unauthorized authHeader s =
     (case authHeader of
        None \<Rightarrow> True
      | Some h \<Rightarrow> take 7 h \<noteq> ''Bearer '' \<or> drop 7 h \<notin> validTokens s)"

text \<open>A handler that leaves the registry and the clock alone.\<close>

definition same_registry :: "server \<Rightarrow> server \<Rightarrow> bool" where
  "same_registry s s' =
     (validTokens s' = validTokens s \<and> timers s' = timers s \<and> clock s' = clock s)"

text \<open>The invariant of the registry: every valid token has a pending timer, and every
  pending timer belongs to a token issued at most 24 hours ago and is not yet due.\<close>

definition token_inv :: "server \<Rightarrow> bool" where
  "token_inv s =
     ((\<forall>tok\<in>validTokens s. \<exists>due. (due, tok) \<in> set (timers s))
      \<and> (\<forall>(due, tok)\<in>set (timers s).
            \<exists>t frac. tok = makeToken t frac \<and> due = t + tokenLifetime \<and> t \<le> clock s \<and> clock s < due))"

text \<open>The life of a token issued at a given time: in the set before the 24 hours have
  passed, out of it from then on.\<close>

definition live :: "int \<Rightarrow> string \<Rightarrow> server \<Rightarrow> bool" where
  "live issued tok s =
     (token_inv s \<and> issued \<le> clock s
      \<and> (clock s < issued + tokenLifetime \<longrightarrow> tok \<in> validTokens s)
      \<and> (issued + tokenLifetime \<le> clock s \<longrightarrow> tok \<notin> validTokens s))"

subsection \<open>Example states\<close>

definition exampleRecord :: "int \<Rightarrow> string \<Rightarrow> help_record" where
  "exampleRecord n d =
     \<lparr>id_field = n, vendorName = ''Ama'', location = ''Accra'', phone = ''0501234567'',
      issue = ''No power'', date = d\<rparr>"

text \<open>A server that has just started, at 2024-03-01T00:30:00Z, on an engine that takes
  125000 arguments and reads the clock twice within a millisecond.\<close>

definition freshServer :: "file_state \<Rightarrow> bool \<Rightarrow> server" where
  "freshServer f w =
     \<lparr>dataFile = f, writable = w, maxArguments = 125000, readDelay = 0, validTokens = {}, timers = [],
      clock = 1709253000000, fsLog = []\<rparr>"

text \<open>The same server after one login at that time, and the header that carries its
  token.\<close>

definition exampleToken :: string where
  "exampleToken = ''dev_token_1709253000000_ab''"

definition loggedInServer :: "file_state \<Rightarrow> bool \<Rightarrow> server" where
  "loggedInServer f w =
     \<lparr>dataFile = f, writable = w, maxArguments = 125000, readDelay = 0, validTokens = {exampleToken},
      timers = [(1709339400000, exampleToken)], clock = 1709253000000, fsLog = []\<rparr>"

definition exampleHeader :: "string option" where
  "exampleHeader = Some (''Bearer '' @ exampleToken)"



text \<open>A date parser that knows five ISO strings, for the examples.\<close>

definition exampleParse :: "string \<Rightarrow> int option" where
  "exampleParse = map_of
     [(''2024-03-01T08:00:00.000Z'', 1709280000000),
      (''2024-02-29T08:00:00.000Z'', 1709193600000),
      (''2024-02-10T08:00:00.000Z'', 1707552000000),
      (''2024-03-20T08:00:00.000Z'', 1710921600000),
      (''2024-02-29T22:30:00.000Z'', 1709245800000)]"

section \<open>Properties of the store\<close>

lemma readRecords_eq: "readRecords s = (stored s, s\<lparr>fsLog := fsLog s @ [ReadFile]\<rparr>)"
  by (simp add: stored_def readRecords_def Let_def split: sum.splits)

lemma stored_eq:
  "stored s = (case dataFile s of Content (JsonRecords rs) \<Rightarrow> rs | _ \<Rightarrow> [])"
  by (simp add: stored_def readRecords_def fs_readFile_def JSON_parse_def Let_def
      split: file_state.splits file_text.splits)

text \<open>
  C7. \<open>readRecords\<close> has no exceptional result: for every state of the backing file it
  returns an array. The array is empty when the file is absent, cannot be read or is not
  JSON, and is the parsed contents otherwise; the load leaves the file as it is.
\<close>

theorem load_never_fails:
  "(dataFile s = Absent \<or> dataFile s = Unreadable \<or> dataFile s = Content NotJson
      \<longrightarrow> fst (readRecords s) = [])
   \<and> (\<forall>rs. dataFile s = Content (JsonRecords rs) \<longrightarrow> fst (readRecords s) = rs)
   \<and> snd (readRecords s) = s\<lparr>fsLog := fsLog s @ [ReadFile]\<rparr>"
  by (simp add: readRecords_eq stored_eq)

theorem load_never_fails_witness:
  "fst (readRecords (freshServer Absent True)) = []
   \<and> fst (readRecords (freshServer Unreadable True)) = []
   \<and> fst (readRecords (freshServer (Content NotJson) True)) = []
   \<and> fst (readRecords (freshServer (Content (JsonRecords [exampleRecord 1 ''x''])) True))
       = [exampleRecord 1 ''x'']"
  using load_never_fails [of "freshServer Absent True"]
    load_never_fails [of "freshServer Unreadable True"]
    load_never_fails [of "freshServer (Content NotJson) True"]
    load_never_fails [of "freshServer (Content (JsonRecords [exampleRecord 1 ''x''])) True"]
  by (simp add: freshServer_def)

lemma writeRecords_ok:
  "writable s \<Longrightarrow> writeRecords rs s =
     (None, s\<lparr>fsLog := fsLog s @ [WriteFile rs], dataFile := Content (JsonRecords rs)\<rparr>)"
  by (simp add: writeRecords_def Let_def)

lemma writeRecords_fails:
  "\<not> writable s \<Longrightarrow> writeRecords rs s = (Some EIO, s\<lparr>fsLog := fsLog s @ [WriteFile rs]\<rparr>)"
  by (simp add: writeRecords_def Let_def)

section \<open>Numbers\<close>

subsection \<open>Rounding to a double\<close>

lemma bitLength_le: "n < 2 ^ k \<Longrightarrow> bitLength n \<le> k"
proof (induction k arbitrary: n)
  case 0
  then show ?case by (simp add: bitLength.simps)
next
  case (Suc k)
  show ?case
  proof (cases "n = 0")
    case True
    then show ?thesis by (simp add: bitLength.simps)
  next
    case False
    have "n div 2 < 2 ^ k" using Suc.prems by simp
    then have "bitLength (n div 2) \<le> k" by (rule Suc.IH)
    then show ?thesis using False by (subst bitLength.simps) simp
  qed
qed

lemma bitLength_gt: "n < 2 ^ bitLength n"
proof (induction n rule: bitLength.induct)
  case (1 n)
  show ?case
  proof (cases "n = 0")
    case True
    then show ?thesis by simp
  next
    case False
    then have "n div 2 < 2 ^ bitLength (n div 2)" using 1 by simp
    then have "n < 2 * 2 ^ bitLength (n div 2)" by linarith
    then show ?thesis using False by (subst bitLength.simps) simp
  qed
qed



lemma roundToDouble_small:
  assumes "\<bar>v\<bar> < 2 ^ 53"
  shows "roundToDouble v = v"
proof -
  have "nat \<bar>v\<bar> < 2 ^ 53" using assms by (simp add: nat_less_iff)
  then have "bitLength (nat \<bar>v\<bar>) \<le> 53" by (rule bitLength_le)
  then have "bitLength (nat \<bar>v\<bar>) - 53 = 0" by simp
  then have "roundToDouble v = sgn v * int (nat \<bar>v\<bar>)"
    by (simp add: roundToDouble_def Let_def)
  then show ?thesis by (simp add: mult_sgn_abs)
qed

lemma bitLength_pow: "bitLength (2 ^ k) = Suc k"
proof -
  have "\<not> bitLength (2 ^ k) \<le> k" using bitLength_gt [of "2 ^ k"] by (simp add: not_le)
  moreover have "bitLength (2 ^ k) \<le> Suc k" by (rule bitLength_le) simp
  ultimately show ?thesis by linarith
qed

lemma roundToDouble_pow53: "roundToDouble (2 ^ 53) = 2 ^ 53"
proof -
  have "nat \<bar>(2::int) ^ 53\<bar> = 2 ^ 53" by simp
  then have b: "bitLength (nat \<bar>(2::int) ^ 53\<bar>) - 53 = 1" by (simp only: bitLength_pow; simp)
  show ?thesis unfolding roundToDouble_def Let_def b by simp
qed

lemma roundToDouble_exact:
  assumes "\<bar>v\<bar> \<le> 2 ^ 53"
  shows "roundToDouble v = v"
proof -
  consider "\<bar>v\<bar> < 2 ^ 53" | "v = 2 ^ 53" | "v = - (2 ^ 53)" using assms by linarith
  then show ?thesis
  proof cases
    case 1
    then show ?thesis by (rule roundToDouble_small)
  next
    case 2
    then show ?thesis by (simp only: roundToDouble_pow53)
  next
    case 3
    have "roundToDouble (- (2 ^ 53)) = - roundToDouble (2 ^ 53)"
      by (simp add: roundToDouble_def Let_def)
    then show ?thesis using 3 by (simp only: roundToDouble_pow53)
  qed
qed


lemma toNumber_exact: "\<bar>v\<bar> \<le> 2 ^ 53 \<Longrightarrow> toNumber v = Some v"
  by (simp add: toNumber_def roundToDouble_exact Let_def)

lemma bitLength_ge:
  assumes "2 ^ k \<le> n"
  shows "k < bitLength n"
proof (rule ccontr)
  assume "\<not> k < bitLength n"
  then have "(2::nat) ^ bitLength n \<le> 2 ^ k" by (intro power_increasing) simp_all
  then show False using assms bitLength_gt [of n] by linarith
qed

lemma roundToDouble_tie: "roundToDouble 9007199254740993 = 9007199254740992"
proof -
  have "bitLength 9007199254740993 \<le> 54" by (rule bitLength_le) simp
  moreover have "53 < bitLength 9007199254740993" by (rule bitLength_ge) simp
  ultimately have b: "bitLength 9007199254740993 = 54" by linarith
  show ?thesis by (simp add: roundToDouble_def Let_def b)
qed

subsection \<open>Decimal rendering\<close>

lemma below_ten:
  fixes k :: nat
  assumes "k < 10"
  shows "k = 0 \<or> k = 1 \<or> k = 2 \<or> k = 3 \<or> k = 4 \<or> k = 5 \<or> k = 6 \<or> k = 7 \<or> k = 8 \<or> k = 9"
  using assms by arith

lemma digitChar_digit: "digitChar n \<in> set ''0123456789''"
proof -
  have "n mod 10 < 10" by simp
  from below_ten [OF this] show ?thesis unfolding digitChar_def by (elim disjE) simp_all
qed

lemma digitVal_digitChar: "digitVal (digitChar n) = n mod 10"
proof -
  have "n mod 10 < 10" by simp
  from below_ten [OF this] show ?thesis
    unfolding digitChar_def digitVal_def isDigit_def by (elim disjE) simp_all
qed

lemma dec_digits: "set (dec n) \<subseteq> set ''0123456789''"
proof (induction n rule: dec.induct)
  case (1 n)
  show ?case
  proof (cases "n < 10")
    case True
    then show ?thesis using digitChar_digit [of n] by (subst dec.simps) simp
  next
    case False
    then show ?thesis using 1 digitChar_digit [of "n mod 10"] by (subst dec.simps) simp
  qed
qed

lemma dec_not_Nil: "dec n \<noteq> []"
  by (subst dec.simps) simp

lemma digitsValue_snoc: "digitsValue r (xs @ [c]) = r * digitsValue r xs + digitVal c"
  by (simp add: digitsValue_def)

lemma digitsValue_dec: "digitsValue 10 (dec n) = n"
proof (induction n rule: dec.induct)
  case (1 n)
  show ?case
  proof (cases "n < 10")
    case True
    then show ?thesis
      by (subst dec.simps) (simp add: digitsValue_def digitVal_digitChar)
  next
    case False
    then have "digitsValue 10 (dec (n div 10)) = n div 10" using 1 by simp
    then show ?thesis using False
      by (subst dec.simps) (simp add: digitsValue_snoc digitVal_digitChar)
  qed
qed

subsection \<open>The largest id\<close>

lemma dec_eval: "dec 1709253000000 = ''1709253000000''"
  by (simp add: dec.simps digitChar_def)

lemma loggedIn_by_login:
  "devLogin (Some ''letmein'') [10, 11] (freshServer f w)
     = ((200, MessageToken ''Developer access granted'' exampleToken), loggedInServer f w)"
  by (simp add: devLogin_def falsy_def DEVELOPER_CODES_def makeToken_def showInt_def dec_eval
      substr_def randomString_def base36_def tokenLifetime_def freshServer_def
      loggedInServer_def exampleToken_def Let_def)

lemma Math_max_ge: "x \<in> set xs \<Longrightarrow> x \<le> Math_max xs"
  by (induction xs rule: Math_max.induct) auto

lemma Math_max_in: "xs \<noteq> [] \<Longrightarrow> Math_max xs \<in> set xs"
  by (induction xs rule: Math_max.induct) (auto simp: max_def)

lemma Math_max_Max: "xs \<noteq> [] \<Longrightarrow> Math_max xs = Max (set xs)"
  by (metis Math_max_ge Math_max_in Max_eqI List.finite_set)

lemma nextId_eq:
  assumes "length rs \<le> limit" and "\<forall>r\<in>set rs. \<bar>id_field r\<bar> < 2 ^ 53"
  shows "nextId limit rs = Inr (if rs = [] then 1 else Max (id_field ` set rs) + 1)"
proof (cases "rs = []")
  case True
  then show ?thesis by (simp add: nextId_def)
next
  case False
  have m: "map (\<lambda>r. if id_field r \<noteq> 0 then id_field r else 0) rs = map id_field rs"
    by simp
  have "Max (id_field ` set rs) \<in> id_field ` set rs" using False by (intro Max_in) simp_all
  then have "\<bar>Max (id_field ` set rs)\<bar> < 2 ^ 53" using assms(2) by auto
  then have "\<bar>Max (id_field ` set rs) + 1\<bar> \<le> 2 ^ 53" by linarith
  then have "roundToDouble (Max (id_field ` set rs) + 1) = Max (id_field ` set rs) + 1"
    by (rule roundToDouble_exact)
  then show ?thesis using False assms(1)
    by (simp add: nextId_def Math_max_spread_def m Math_max_Max del: map_eq_conv)
qed

lemma nextId_too_many: "limit < length rs \<Longrightarrow> nextId limit rs = Inl RangeError"
  by (auto simp: nextId_def Math_max_spread_def)

section \<open>Creating a record\<close>

lemma phonePattern_test_iff:
  "phonePattern_test p \<longleftrightarrow>
     (\<exists>ds. length ds = 9 \<and> list_all isDigit ds \<and> (p = ''+233'' @ ds \<or> p = ''0'' @ ds))"
proof
  assume "phonePattern_test p"
  then consider "take 4 p = ''+233''" "nineDigits (drop 4 p)" | "take 1 p = ''0''" "nineDigits (drop 1 p)"
    by (auto simp: phonePattern_test_def)
  then show "\<exists>ds. length ds = 9 \<and> list_all isDigit ds \<and> (p = ''+233'' @ ds \<or> p = ''0'' @ ds)"
  proof cases
    case 1
    have "p = take 4 p @ drop 4 p" by simp
    with 1 show ?thesis unfolding nineDigits_def by metis
  next
    case 2
    have "p = take 1 p @ drop 1 p" by simp
    with 2 show ?thesis unfolding nineDigits_def by metis
  qed
next
  assume "\<exists>ds. length ds = 9 \<and> list_all isDigit ds \<and> (p = ''+233'' @ ds \<or> p = ''0'' @ ds)"
  then show "phonePattern_test p"
    by (auto simp: phonePattern_test_def nineDigits_def)
qed

lemma create_status:
  "fst (fst (createRecord v l p i s)) = 400 \<longleftrightarrow>
     falsy v \<or> falsy l \<or> falsy p \<or> falsy i \<or> \<not> phonePattern_test (the p)"
  by (simp add: createRecord_def readRecords_eq writeRecords_def Let_def split: sum.splits)

lemma create_rejected_state:
  assumes "fst (fst (createRecord v l p i s)) = 400"
  shows "snd (createRecord v l p i s) = s"
proof -
  from assms have "falsy v \<or> falsy l \<or> falsy p \<or> falsy i \<or> \<not> phonePattern_test (the p)"
    by (simp add: create_status)
  then show ?thesis by (auto simp: createRecord_def)
qed

lemma falsy_iff: "falsy v \<longleftrightarrow> v = None \<or> v = Some []"
  by (simp add: falsy_def split: option.splits)

lemma phone_empty: "\<not> phonePattern_test []"
  by (simp add: phonePattern_test_def)

lemma create_valid:
  assumes "v \<noteq> []" "l \<noteq> []" "i \<noteq> []" "phonePattern_test p"
  shows "createRecord (Some v) (Some l) (Some p) (Some i) s =
     (case nextId (maxArguments s) (stored s) of
        Inl e \<Rightarrow> ((500, MessageError ''Error creating record'' e), s\<lparr>fsLog := fsLog s @ [ReadFile]\<rparr>)
      | Inr n \<Rightarrow>
         (let new = \<lparr>id_field = n, vendorName = trim v, location = trim l,
                      phone = trim p, issue = trim i, date = isoString (clock s)\<rparr>;
              s1 = s\<lparr>fsLog := fsLog s @ [ReadFile, WriteFile (stored s @ [new])]\<rparr>
          in if writable s
             then ((201, MessageRecord ''Record created successfully'' new),
                   s1\<lparr>dataFile := Content (JsonRecords (stored s @ [new]))\<rparr>)
             else ((500, MessageError ''Error creating record'' EIO), s1)))"
proof -
  have "p \<noteq> []" using assms(4) by (auto simp: phonePattern_test_def)
  then show ?thesis using assms
    by (simp add: createRecord_def falsy_def readRecords_eq writeRecords_def Let_def
        split: sum.splits)
qed

text \<open>
  C2, as the handler has it. The request is answered 400 exactly when one of the four
  fields is absent or is the empty string (before any trimming), or the phone is not
  \<open>+233\<close> or \<open>0\<close> followed by exactly nine digits; then the state is unchanged, so
  the store is neither read nor written. With the other fields present and not empty,
  \<open>+233501234567\<close> and \<open>0501234567\<close> are not rejected and \<open>12345\<close> and \<open>+1234567890\<close>
  are.
\<close>

theorem create_rejects_iff:
  "(fst (fst (createRecord v l p i s)) = 400 \<longleftrightarrow>
      v = None \<or> v = Some [] \<or> l = None \<or> l = Some [] \<or> p = None \<or> i = None \<or> i = Some []
      \<or> \<not> (\<exists>ds. length ds = 9 \<and> list_all isDigit ds
               \<and> (p = Some (''+233'' @ ds) \<or> p = Some (''0'' @ ds))))
   \<and> (fst (fst (createRecord v l p i s)) = 400 \<longrightarrow> snd (createRecord v l p i s) = s)
   \<and> (v \<noteq> None \<and> v \<noteq> Some [] \<and> l \<noteq> None \<and> l \<noteq> Some [] \<and> i \<noteq> None \<and> i \<noteq> Some [] \<longrightarrow>
        fst (fst (createRecord v l (Some ''+233501234567'') i s)) \<noteq> 400
        \<and> fst (fst (createRecord v l (Some ''0501234567'') i s)) \<noteq> 400
        \<and> fst (fst (createRecord v l (Some ''12345'') i s)) = 400
        \<and> fst (fst (createRecord v l (Some ''+1234567890'') i s)) = 400)"
proof (intro conjI impI)
  show "fst (fst (createRecord v l p i s)) = 400 \<longleftrightarrow>
      v = None \<or> v = Some [] \<or> l = None \<or> l = Some [] \<or> p = None \<or> i = None \<or> i = Some []
      \<or> \<not> (\<exists>ds. length ds = 9 \<and> list_all isDigit ds
               \<and> (p = Some (''+233'' @ ds) \<or> p = Some (''0'' @ ds)))"
  proof (cases p)
    case None
    then show ?thesis by (simp add: create_status falsy_iff)
  next
    case (Some q)
    have "falsy p \<or> \<not> phonePattern_test (the p) \<longleftrightarrow> \<not> phonePattern_test q"
      using Some phone_empty by (auto simp: falsy_iff)
    then show ?thesis
      unfolding create_status using Some by (auto simp: falsy_iff phonePattern_test_iff)
  qed
next
  assume "fst (fst (createRecord v l p i s)) = 400"
  then show "snd (createRecord v l p i s) = s" by (rule create_rejected_state)
next
  assume a: "v \<noteq> None \<and> v \<noteq> Some [] \<and> l \<noteq> None \<and> l \<noteq> Some [] \<and> i \<noteq> None \<and> i \<noteq> Some []"
  have t: "phonePattern_test ''+233501234567''" "phonePattern_test ''0501234567''"
    "\<not> phonePattern_test ''12345''" "\<not> phonePattern_test ''+1234567890''"
    by (simp_all add: phonePattern_test_def nineDigits_def isDigit_def)
  show "fst (fst (createRecord v l (Some ''+233501234567'') i s)) \<noteq> 400"
    "fst (fst (createRecord v l (Some ''0501234567'') i s)) \<noteq> 400"
    "fst (fst (createRecord v l (Some ''12345'') i s)) = 400"
    "fst (fst (createRecord v l (Some ''+1234567890'') i s)) = 400"
    using a t by (simp_all add: create_status falsy_iff)
qed

theorem create_rejects_iff_witness:
  "fst (fst (createRecord None (Some ''Accra'') (Some ''0501234567'') (Some ''No power'')
      (freshServer Absent True))) = 400
   \<and> snd (createRecord None (Some ''Accra'') (Some ''0501234567'') (Some ''No power'')
      (freshServer Absent True)) = freshServer Absent True
   \<and> fst (fst (createRecord (Some ''Ama'') (Some ''Accra'') (Some ''12345'') (Some ''No power'')
      (freshServer Absent True))) = 400
   \<and> fst (fst (createRecord (Some ''Ama'') (Some ''Accra'') (Some ''0501234567'') (Some ''No power'')
      (freshServer Absent True))) \<noteq> 400"
  using create_rejects_iff [of None "Some ''Accra''" "Some ''0501234567''" "Some ''No power''"
      "freshServer Absent True"]
    create_rejects_iff [of "Some ''Ama''" "Some ''Accra''" "Some ''12345''" "Some ''No power''"
      "freshServer Absent True"]
  by simp

text \<open>
  C2 as stated fails: a vendor name of two spaces is empty after trimming, and the
  request is answered 201 with the empty name stored.
\<close>

theorem create_accepts_blank_field:
  "trim ''  '' = []
   \<and> fst (createRecord (Some ''  '') (Some ''Accra'') (Some ''0501234567'') (Some ''No power'')
        (freshServer (Content (JsonRecords [])) True))
     = (201, MessageRecord ''Record created successfully''
          \<lparr>id_field = 1, vendorName = [], location = ''Accra'', phone = ''0501234567'',
           issue = ''No power'', date = ''2024-03-01T00:30:00.000Z''\<rparr>)"
  proof -
  have iso: "isoString 1709253000000 = ''2024-03-01T00:30:00.000Z''"
    by code_simp
  have t: "phonePattern_test ''0501234567''"
    by (simp add: phonePattern_test_def nineDigits_def isDigit_def)
  have tr: "trim ''  '' = []" "trim ''Accra'' = ''Accra''" "trim ''0501234567'' = ''0501234567''"
    "trim ''No power'' = ''No power''"
    by (simp_all add: trim_def trimStart_def isWhiteSpace_def)
  show ?thesis
    by (simp add: tr create_valid t nextId_def stored_eq freshServer_def iso Let_def)
qed

text \<open>
  C1, as the handler has it. When the four fields pass the validation, the loaded
  collection has no more records than the engine takes arguments, its ids are below
  \<open>2^53\<close> in magnitude and the write succeeds, the new record has the id 1 for an empty
  loaded collection and the largest id plus one otherwise, it is the last record of the
  collection that is written and stored, and it is returned with status 201.
\<close>

theorem create_appends_next_id:
  assumes "v \<noteq> []" "l \<noteq> []" "i \<noteq> []" "phonePattern_test p" and "writable s"
    and "length (stored s) \<le> maxArguments s"
    and "\<forall>r\<in>set (stored s). \<bar>id_field r\<bar> < 2 ^ 53"
  shows "let new = \<lparr>id_field = (if stored s = [] then 1 else Max (id_field ` set (stored s)) + 1),
                    vendorName = trim v, location = trim l, phone = trim p, issue = trim i,
                    date = isoString (clock s)\<rparr>
         in createRecord (Some v) (Some l) (Some p) (Some i) s =
              ((201, MessageRecord ''Record created successfully'' new),
               s\<lparr>fsLog := fsLog s @ [ReadFile, WriteFile (stored s @ [new])],
                 dataFile := Content (JsonRecords (stored s @ [new]))\<rparr>)
            \<and> stored (snd (createRecord (Some v) (Some l) (Some p) (Some i) s)) = stored s @ [new]"
proof -
  note n = nextId_eq [OF assms(6,7)]
  have st: "\<And>rs lg. stored (s\<lparr>fsLog := lg, dataFile := Content (JsonRecords rs)\<rparr>) = rs"
    by (simp add: stored_eq)
  have c: "createRecord (Some v) (Some l) (Some p) (Some i) s =
      ((201, MessageRecord ''Record created successfully''
          \<lparr>id_field = (if stored s = [] then 1 else Max (id_field ` set (stored s)) + 1),
           vendorName = trim v, location = trim l, phone = trim p, issue = trim i,
           date = isoString (clock s)\<rparr>),
       s\<lparr>fsLog := fsLog s @ [ReadFile, WriteFile (stored s @
           [\<lparr>id_field = (if stored s = [] then 1 else Max (id_field ` set (stored s)) + 1),
             vendorName = trim v, location = trim l, phone = trim p, issue = trim i,
             date = isoString (clock s)\<rparr>])],
         dataFile := Content (JsonRecords (stored s @
           [\<lparr>id_field = (if stored s = [] then 1 else Max (id_field ` set (stored s)) + 1),
             vendorName = trim v, location = trim l, phone = trim p, issue = trim i,
             date = isoString (clock s)\<rparr>]))\<rparr>)"
    using assms(1-5) by (simp add: create_valid n Let_def)
  show ?thesis unfolding Let_def c snd_conv st by simp
qed

theorem create_appends_next_id_witness:
  "phonePattern_test ''0501234567'' \<and>
   createRecord (Some '' Kofi '') (Some ''Tema'') (Some ''0501234567'') (Some ''Meter fault'')
      (freshServer (Content (JsonRecords [exampleRecord 4 ''x'', exampleRecord 2 ''y''])) True)
    = ((201, MessageRecord ''Record created successfully''
          \<lparr>id_field = 5, vendorName = ''Kofi'', location = ''Tema'', phone = ''0501234567'',
           issue = ''Meter fault'', date = isoString 1709253000000\<rparr>),
       \<lparr>dataFile = Content (JsonRecords [exampleRecord 4 ''x'', exampleRecord 2 ''y'',
          \<lparr>id_field = 5, vendorName = ''Kofi'', location = ''Tema'', phone = ''0501234567'',
           issue = ''Meter fault'', date = isoString 1709253000000\<rparr>]),
        writable = True, maxArguments = 125000, readDelay = 0, validTokens = {}, timers = [],
        clock = 1709253000000,
        fsLog = [ReadFile, WriteFile [exampleRecord 4 ''x'', exampleRecord 2 ''y'',
          \<lparr>id_field = 5, vendorName = ''Kofi'', location = ''Tema'', phone = ''0501234567'',
           issue = ''Meter fault'', date = isoString 1709253000000\<rparr>]]\<rparr>)"
proof -
  let ?s = "freshServer (Content (JsonRecords [exampleRecord 4 ''x'', exampleRecord 2 ''y''])) True"
  have t: "phonePattern_test ''0501234567''"
    by (simp add: phonePattern_test_def nineDigits_def isDigit_def)
  have tr: "trim '' Kofi '' = ''Kofi''" "trim ''Tema'' = ''Tema''" "trim ''0501234567'' = ''0501234567''"
    "trim ''Meter fault'' = ''Meter fault''"
    by (simp_all add: trim_def trimStart_def isWhiteSpace_def)
  have st: "stored ?s = [exampleRecord 4 ''x'', exampleRecord 2 ''y'']"
    by (simp add: stored_eq freshServer_def)
  have h: "writable ?s" "length (stored ?s) \<le> maxArguments ?s"
    "\<forall>r\<in>set (stored ?s). \<bar>id_field r\<bar> < 2 ^ 53"
    unfolding st by (simp_all add: freshServer_def exampleRecord_def)
  show ?thesis
    using t create_appends_next_id [of "'' Kofi ''" "''Tema''" "''Meter fault''" "''0501234567''" ?s,
        OF _ _ _ t h]
    by (simp add: tr freshServer_def stored_eq exampleRecord_def Let_def)
qed

text \<open>
  C1 as stated fails, in three ways. When the write fails, a request whose fields pass the
  validation is answered 500. When the collection has more records than the engine takes
  arguments (here 125001 against 125000), \<open>Math.max\<close> throws and the request is answered
  500. When the largest id is \<open>2^53\<close>, the new record gets the id \<open>2^53\<close> again, since
  \<open>2^53 + 1\<close> is no double.
\<close>

theorem create_fails_or_repeats_id:
  "phonePattern_test ''0501234567''
   \<and> fst (createRecord (Some ''Kofi'') (Some ''Tema'') (Some ''0501234567'') (Some ''Meter fault'')
        (freshServer (Content (JsonRecords [])) False))
      = (500, MessageError ''Error creating record'' EIO)
   \<and> fst (createRecord (Some ''Kofi'') (Some ''Tema'') (Some ''0501234567'') (Some ''Meter fault'')
        (freshServer (Content (JsonRecords
           (map (\<lambda>n. exampleRecord (int n) ''x'') [1..<125002]))) True))
      = (500, MessageError ''Error creating record'' RangeError)
   \<and> fst (createRecord (Some ''Kofi'') (Some ''Tema'') (Some ''0501234567'') (Some ''Meter fault'')
        (freshServer (Content (JsonRecords [exampleRecord 9007199254740992 ''x''])) True))
      = (201, MessageRecord ''Record created successfully''
          \<lparr>id_field = 9007199254740992, vendorName = ''Kofi'', location = ''Tema'',
           phone = ''0501234567'', issue = ''Meter fault'', date = isoString 1709253000000\<rparr>)"
proof -
  have t: "phonePattern_test ''0501234567''"
    by (simp add: phonePattern_test_def nineDigits_def isDigit_def)
  have tr: "trim ''Kofi'' = ''Kofi''" "trim ''Tema'' = ''Tema''" "trim ''0501234567'' = ''0501234567''"
    "trim ''Meter fault'' = ''Meter fault''"
    by (simp_all add: trim_def trimStart_def isWhiteSpace_def)
  have a: "fst (createRecord (Some ''Kofi'') (Some ''Tema'') (Some ''0501234567'') (Some ''Meter fault'')
        (freshServer (Content (JsonRecords [])) False))
      = (500, MessageError ''Error creating record'' EIO)"
    by (simp add: create_valid t nextId_def stored_eq freshServer_def Let_def)
  have "nextId 125000 (map (\<lambda>n. exampleRecord (int n) ''x'') [1..<125002]) = Inl RangeError"
    by (rule nextId_too_many) simp
  then have b: "fst (createRecord (Some ''Kofi'') (Some ''Tema'') (Some ''0501234567'') (Some ''Meter fault'')
        (freshServer (Content (JsonRecords
           (map (\<lambda>n. exampleRecord (int n) ''x'') [1..<125002]))) True))
      = (500, MessageError ''Error creating record'' RangeError)"
    by (simp add: create_valid t stored_eq freshServer_def del: upt_Suc map_eq_conv)
  have "nextId 125000 [exampleRecord 9007199254740992 ''x''] = Inr 9007199254740992"
    by (simp add: nextId_def Math_max_spread_def exampleRecord_def roundToDouble_tie)
  then have c: "fst (createRecord (Some ''Kofi'') (Some ''Tema'') (Some ''0501234567'') (Some ''Meter fault'')
        (freshServer (Content (JsonRecords [exampleRecord 9007199254740992 ''x''])) True))
      = (201, MessageRecord ''Record created successfully''
          \<lparr>id_field = 9007199254740992, vendorName = ''Kofi'', location = ''Tema'',
           phone = ''0501234567'', issue = ''Meter fault'', date = isoString 1709253000000\<rparr>)"
    by (simp add: create_valid t tr stored_eq freshServer_def Let_def)
  from t a b c show ?thesis by (intro conjI)
qed

section \<open>Deleting a record\<close>

lemma findIndexFrom_eq:
  "findIndexFrom k P xs =
     (if \<exists>x\<in>set xs. P x then k + int (length (takeWhile (\<lambda>x. \<not> P x) xs)) else - 1)"
  by (induction xs arbitrary: k) auto

lemma findIndex_none: "findIndex P xs = - 1 \<longleftrightarrow> (\<forall>x\<in>set xs. \<not> P x)"
  by (simp add: findIndex_def findIndexFrom_eq)

lemma splice1_findIndex:
  assumes "\<exists>x\<in>set xs. P x"
  shows "splice1 (findIndex P xs) xs
           = takeWhile (\<lambda>x. \<not> P x) xs @ tl (dropWhile (\<lambda>x. \<not> P x) xs)"
proof -
  have i: "findIndex P xs = int (length (takeWhile (\<lambda>x. \<not> P x) xs))"
    using assms by (simp add: findIndex_def findIndexFrom_eq)
  have "take (length (takeWhile (\<lambda>x. \<not> P x) xs)) xs = takeWhile (\<lambda>x. \<not> P x) xs"
    by (metis append_eq_conv_conj takeWhile_dropWhile_id)
  moreover have "drop (length (takeWhile (\<lambda>x. \<not> P x) xs)) xs = dropWhile (\<lambda>x. \<not> P x) xs"
    by (metis append_eq_conv_conj takeWhile_dropWhile_id)
  moreover have "drop (length (takeWhile (\<lambda>x. \<not> P x) xs) + 1) xs
      = tl (drop (length (takeWhile (\<lambda>x. \<not> P x) xs)) xs)"
    by (simp add: drop_Suc tl_drop)
  ultimately show ?thesis
    by (simp only: splice1_def i nat_int)
qed

lemma split_first:
  assumes "\<exists>x\<in>set xs. P x"
  shows "\<exists>r. xs = takeWhile (\<lambda>x. \<not> P x) xs @ r # tl (dropWhile (\<lambda>x. \<not> P x) xs) \<and> P r"
proof -
  have ne: "dropWhile (\<lambda>x. \<not> P x) xs \<noteq> []" using assms by (simp add: dropWhile_eq_Nil_conv)
  then have "P (hd (dropWhile (\<lambda>x. \<not> P x) xs))" using hd_dropWhile by blast
  moreover have "xs = takeWhile (\<lambda>x. \<not> P x) xs @ hd (dropWhile (\<lambda>x. \<not> P x) xs) # tl (dropWhile (\<lambda>x. \<not> P x) xs)"
    using ne by simp
  ultimately show ?thesis by blast
qed

lemma checkDeveloperAuth_pass:
  "t \<noteq> [] \<Longrightarrow> t \<in> validTokens s \<Longrightarrow> checkDeveloperAuth (Some (''Bearer '' @ t)) next s = next s"
  by (simp add: checkDeveloperAuth_def bearerToken_def falsy_def Let_def)

lemma removeRecord_missing:
  assumes "\<forall>r\<in>set (stored s). Some (id_field r) \<noteq> parseInt idParam"
  shows "removeRecord idParam s
           = ((404, Message ''Record not found''), s\<lparr>fsLog := fsLog s @ [ReadFile]\<rparr>)"
proof -
  have "findIndex (\<lambda>r. Some (id_field r) = parseInt idParam) (stored s) = - 1"
    using assms by (simp add: findIndex_none)
  then show ?thesis by (simp add: removeRecord_def readRecords_eq Let_def)
qed

lemma removeRecord_found:
  assumes "parseInt idParam = Some n" and "n \<in> id_field ` set (stored s)"
  shows "\<exists>pre r post. stored s = pre @ r # post \<and> id_field r = n \<and> n \<notin> id_field ` set pre
     \<and> removeRecord idParam s =
         (if writable s
          then ((200, Message ''Record deleted successfully''),
                s\<lparr>fsLog := fsLog s @ [ReadFile, WriteFile (pre @ post)],
                  dataFile := Content (JsonRecords (pre @ post))\<rparr>)
          else ((500, MessageError ''Error deleting record'' EIO),
                s\<lparr>fsLog := fsLog s @ [ReadFile, WriteFile (pre @ post)]\<rparr>))"
proof -
  let ?P = "\<lambda>r. Some (id_field r) = parseInt idParam"
  let ?pre = "takeWhile (\<lambda>x. \<not> ?P x) (stored s)"
  let ?post = "tl (dropWhile (\<lambda>x. \<not> ?P x) (stored s))"
  have ex: "\<exists>x\<in>set (stored s). ?P x" using assms by auto
  then obtain r where r: "stored s = ?pre @ r # ?post" "?P r" using split_first [of "stored s" ?P] by blast
  have idx: "findIndex ?P (stored s) \<noteq> - 1" using ex by (simp add: findIndex_none)
  have sp: "splice1 (findIndex ?P (stored s)) (stored s) = ?pre @ ?post"
    using ex by (rule splice1_findIndex)
  have pre: "n \<notin> id_field ` set ?pre"
  proof
    assume "n \<in> id_field ` set ?pre"
    then obtain x where "x \<in> set ?pre" "id_field x = n" by auto
    then show False using set_takeWhileD [of x "\<lambda>x. \<not> ?P x" "stored s"] assms(1) by simp
  qed
  have rm: "removeRecord idParam s =
         (if writable s
          then ((200, Message ''Record deleted successfully''),
                s\<lparr>fsLog := fsLog s @ [ReadFile, WriteFile (?pre @ ?post)],
                  dataFile := Content (JsonRecords (?pre @ ?post))\<rparr>)
          else ((500, MessageError ''Error deleting record'' EIO),
                s\<lparr>fsLog := fsLog s @ [ReadFile, WriteFile (?pre @ ?post)]\<rparr>))"
    using idx sp by (simp add: removeRecord_def readRecords_eq writeRecords_def Let_def)
  have "id_field r = n" using r(2) assms(1) by simp
  with r(1) pre rm show ?thesis by blast
qed

lemma exampleToken_ne: "exampleToken \<noteq> []"
  by (simp add: exampleToken_def)

lemma digit_not_space: "isDigit c \<Longrightarrow> \<not> isWhiteSpace c"
  by (auto simp: isDigit_def isWhiteSpace_def)

lemma digit_not_sign: "isDigit c \<Longrightarrow> c \<noteq> CHR ''+'' \<and> c \<noteq> CHR ''-''"
  by (auto simp: isDigit_def)

lemma takeWhile_prefix:
  assumes "list_all P ds" and "rest = [] \<or> \<not> P (hd rest)"
  shows "takeWhile P (ds @ rest) = ds"
proof -
  have "takeWhile P rest = []" using assms(2) by (cases rest) auto
  then show ?thesis using assms(1) by (simp add: list_all_iff)
qed

lemma parseInt_decimal_prefix:
  assumes ds: "ds \<noteq> []" "list_all isDigit ds"
    and rest: "rest = [] \<or> \<not> isDigit (hd rest)"
    and nohex: "take 2 (ds @ rest) \<noteq> ''0x''" "take 2 (ds @ rest) \<noteq> ''0X''"
  shows "parseInt (ds @ rest) = toNumber (int (digitsValue 10 ds))"
proof -
  obtain c cs where c: "ds = c # cs" using ds(1) by (cases ds) auto
  then have d: "isDigit c" using ds(2) by simp
  have ws: "trimStart (ds @ rest) = ds @ rest"
    using c digit_not_space [OF d] by (simp add: trimStart_def)
  have sg: "take 1 (ds @ rest) \<noteq> ''+''" "take 1 (ds @ rest) \<noteq> ''-''"
    using c digit_not_sign [OF d] by simp_all
  have tw: "takeWhile isDigit (ds @ rest) = ds"
    using ds(2) rest by (rule takeWhile_prefix)
  show ?thesis
    unfolding parseInt_def Let_def ws using sg nohex tw ds(1) by simp
qed

lemma parseInt_hex_prefix:
  assumes hs: "hs \<noteq> []" "list_all isHexDigit hs"
    and rest: "rest = [] \<or> \<not> isHexDigit (hd rest)"
    and px: "px = ''0x'' \<or> px = ''0X''"
  shows "parseInt (px @ hs @ rest) = toNumber (int (digitsValue 16 hs))"
proof -
  define w where "w = px @ hs @ rest"
  have ws: "trimStart w = w"
    using px by (auto simp: w_def trimStart_def isWhiteSpace_def)
  have sg: "take 1 w \<noteq> ''+''" "take 1 w \<noteq> ''-''"
    using px by (auto simp: w_def)
  have hx: "take 2 w = ''0x'' \<or> take 2 w = ''0X''"
    using px by (auto simp: w_def)
  have dr: "drop 2 w = hs @ rest" using px by (auto simp: w_def)
  have tw: "takeWhile isHexDigit (hs @ rest) = hs"
    using hs(2) rest by (rule takeWhile_prefix)
  have "parseInt w = toNumber (int (digitsValue 16 hs))"
    unfolding parseInt_def Let_def ws using sg hx hs(1) by (simp add: dr tw)
  then show ?thesis by (simp only: w_def)
qed

lemma digits_no_hex_prefix:
  assumes "list_all isDigit ds"
  shows "take 2 ds \<noteq> ''0x'' \<and> take 2 ds \<noteq> ''0X''"
proof (cases ds)
  case Nil
  then show ?thesis by simp
next
  case (Cons a as)
  show ?thesis
  proof (cases as)
    case Nil
    with Cons show ?thesis by simp
  next
    case (Cons b bs)
    have "isDigit b" using assms \<open>ds = a # as\<close> Cons by simp
    then have "b \<noteq> CHR ''x''" "b \<noteq> CHR ''X''" by (auto simp: isDigit_def)
    then show ?thesis using \<open>ds = a # as\<close> Cons by simp
  qed
qed

lemma parseInt_digits:
  assumes "ds \<noteq> []" "list_all isDigit ds"
  shows "parseInt ds = toNumber (int (digitsValue 10 ds))"
  using parseInt_decimal_prefix [OF assms, of "[]"] digits_no_hex_prefix [OF assms(2)] by simp


lemma parseInt_2: "parseInt ''2'' = Some 2"
  by (simp add: parseInt_digits isDigit_def digitsValue_def digitVal_def toNumber_exact)

lemma parseInt_999999: "parseInt ''999999'' = Some 999999"
  by (simp add: parseInt_digits isDigit_def digitsValue_def digitVal_def toNumber_exact)

lemma parseInt_no_digit:
  assumes "idParam \<noteq> []" "\<not> isDigit (hd idParam)" "\<not> isWhiteSpace (hd idParam)"
    "hd idParam \<noteq> CHR ''+''" "hd idParam \<noteq> CHR ''-''"
  shows "parseInt idParam = None"
proof -
  obtain c cs where c: "idParam = c # cs" using assms(1) by (cases idParam) auto
  have z: "c \<noteq> CHR ''0''" using assms(2) c by (auto simp: isDigit_def)
  show ?thesis
    unfolding parseInt_def Let_def using assms c z by (simp add: trimStart_def)
qed

lemma removeRecord_not_400: "fst (fst (removeRecord idParam s)) \<noteq> 400"
  by (simp add: removeRecord_def readRecords_eq writeRecords_def Let_def)

lemma removeRecord_cong:
  "parseInt a = parseInt b \<Longrightarrow> removeRecord a s = removeRecord b s"
  by (simp add: removeRecord_def)

text \<open>
  C6, as the handler has it. For a request that carries a valid token and an id that
  \<open>parseInt\<close> reads as a number: when a record of the loaded collection has that id and
  the write succeeds, the first such record is removed, the shortened collection is
  written and stored, and the answer is 200; when no record has that id, the answer is 404
  and the file is read but not written.
\<close>

theorem delete_removes_or_404:
  assumes "t \<noteq> []" and "t \<in> validTokens s" and "parseInt idParam = Some n"
  shows "(n \<in> id_field ` set (stored s) \<and> writable s \<longrightarrow>
           (\<exists>pre r post. stored s = pre @ r # post \<and> id_field r = n \<and> n \<notin> id_field ` set pre
              \<and> deleteRecord (Some (''Bearer '' @ t)) idParam s =
                  ((200, Message ''Record deleted successfully''),
                   s\<lparr>fsLog := fsLog s @ [ReadFile, WriteFile (pre @ post)],
                     dataFile := Content (JsonRecords (pre @ post))\<rparr>)))
       \<and> (n \<notin> id_field ` set (stored s) \<longrightarrow>
            deleteRecord (Some (''Bearer '' @ t)) idParam s =
              ((404, Message ''Record not found''), s\<lparr>fsLog := fsLog s @ [ReadFile]\<rparr>))"
proof (intro conjI impI)
  have d: "deleteRecord (Some (''Bearer '' @ t)) idParam s = removeRecord idParam s"
    unfolding deleteRecord_def using assms(1,2) by (rule checkDeveloperAuth_pass)
  {
  assume a: "n \<in> id_field ` set (stored s) \<and> writable s"
  show "\<exists>pre r post. stored s = pre @ r # post \<and> id_field r = n \<and> n \<notin> id_field ` set pre
              \<and> deleteRecord (Some (''Bearer '' @ t)) idParam s =
                  ((200, Message ''Record deleted successfully''),
                   s\<lparr>fsLog := fsLog s @ [ReadFile, WriteFile (pre @ post)],
                     dataFile := Content (JsonRecords (pre @ post))\<rparr>)"
    unfolding d using removeRecord_found [OF assms(3), of s] a by simp
  next
  assume "n \<notin> id_field ` set (stored s)"
  then have "\<forall>r\<in>set (stored s). Some (id_field r) \<noteq> parseInt idParam"
    using assms(3) by auto
  then show "deleteRecord (Some (''Bearer '' @ t)) idParam s =
              ((404, Message ''Record not found''), s\<lparr>fsLog := fsLog s @ [ReadFile]\<rparr>)"
    unfolding d by (rule removeRecord_missing)
  }
qed

theorem delete_removes_or_404_witness:
  "deleteRecord (Some (''Bearer '' @ exampleToken)) ''999999''
      (loggedInServer (Content (JsonRecords [exampleRecord 4 ''x'', exampleRecord 2 ''y''])) True)
    = ((404, Message ''Record not found''),
       (loggedInServer (Content (JsonRecords [exampleRecord 4 ''x'', exampleRecord 2 ''y''])) True)
         \<lparr>fsLog := fsLog (loggedInServer (Content (JsonRecords [exampleRecord 4 ''x'',
             exampleRecord 2 ''y''])) True) @ [ReadFile]\<rparr>)
   \<and> (\<exists>pre r post.
         stored (loggedInServer (Content (JsonRecords [exampleRecord 4 ''x'', exampleRecord 2 ''y''])) True)
           = pre @ r # post \<and> id_field r = 2 \<and> 2 \<notin> id_field ` set pre
        \<and> deleteRecord (Some (''Bearer '' @ exampleToken)) ''2''
            (loggedInServer (Content (JsonRecords [exampleRecord 4 ''x'', exampleRecord 2 ''y''])) True)
          = ((200, Message ''Record deleted successfully''),
             (loggedInServer (Content (JsonRecords [exampleRecord 4 ''x'', exampleRecord 2 ''y''])) True)
               \<lparr>fsLog := fsLog (loggedInServer (Content (JsonRecords [exampleRecord 4 ''x'',
                   exampleRecord 2 ''y''])) True) @ [ReadFile, WriteFile (pre @ post)],
                 dataFile := Content (JsonRecords (pre @ post))\<rparr>))"
proof -
  let ?s = "loggedInServer (Content (JsonRecords [exampleRecord 4 ''x'', exampleRecord 2 ''y''])) True"
  have t: "exampleToken \<in> validTokens ?s" by (simp add: loggedInServer_def)
  have st: "stored ?s = [exampleRecord 4 ''x'', exampleRecord 2 ''y'']"
    by (simp add: stored_eq loggedInServer_def)
  have w: "writable ?s" by (simp add: loggedInServer_def)
  have ids: "999999 \<notin> id_field ` set (stored ?s)" "2 \<in> id_field ` set (stored ?s)"
    unfolding st by (simp_all add: exampleRecord_def)
  show ?thesis
    using delete_removes_or_404 [OF exampleToken_ne t parseInt_999999]
      delete_removes_or_404 [OF exampleToken_ne t parseInt_2] ids w
    by blast
qed

text \<open>
  C6 as stated fails: when the write fails, the request for an id that is there is
  answered 500.
\<close>

theorem delete_fails_when_write_fails:
  "parseInt ''2'' = Some 2
   \<and> fst (deleteRecord exampleHeader ''2''
        (loggedInServer (Content (JsonRecords [exampleRecord 4 ''x'', exampleRecord 2 ''y''])) False))
     = (500, MessageError ''Error deleting record'' EIO)"
  by (simp add: parseInt_2 deleteRecord_def checkDeveloperAuth_def bearerToken_def falsy_def
      exampleHeader_def exampleToken_def loggedInServer_def removeRecord_def readRecords_eq
      stored_eq findIndex_def splice1_def writeRecords_def exampleRecord_def Let_def)

text \<open>
  C9, as the handler has it. The id parameter is read by \<open>parseInt\<close>, whose value is a
  double. The answer to a request with a valid token is never 400. A parameter in which
  \<open>parseInt\<close> finds no number (as one that starts with a character that is no digit, no
  white space and no sign) is answered 404, with no write. A parameter made of decimal
  digits followed by something that starts with no digit, and that does not start with
  \<open>0x\<close> or \<open>0X\<close>, is read as the number of these digits, exactly up to \<open>2^53\<close> and
  rounded to a double beyond: the request is the request for the digits alone, and when a
  record has the id that was read and the write succeeds, the first such record is
  removed. A parameter made of \<open>0x\<close> or \<open>0X\<close>, hexadecimal digits and something that
  starts with no hexadecimal digit is read as the number of these digits in radix 16.
  \<open>12abc\<close> is read as 12.
\<close>

theorem delete_id_by_parseInt:
  assumes "t \<noteq> []" and "t \<in> validTokens s"
  shows "fst (fst (deleteRecord (Some (''Bearer '' @ t)) idParam s)) \<noteq> 400
   \<and> (parseInt idParam = None \<longrightarrow>
        deleteRecord (Some (''Bearer '' @ t)) idParam s =
          ((404, Message ''Record not found''), s\<lparr>fsLog := fsLog s @ [ReadFile]\<rparr>))
   \<and> (idParam \<noteq> [] \<and> \<not> isDigit (hd idParam) \<and> \<not> isWhiteSpace (hd idParam)
        \<and> hd idParam \<noteq> CHR ''+'' \<and> hd idParam \<noteq> CHR ''-'' \<longrightarrow> parseInt idParam = None)
   \<and> (ds \<noteq> [] \<and> list_all isDigit ds \<and> (rest = [] \<or> \<not> isDigit (hd rest))
        \<and> take 2 (ds @ rest) \<noteq> ''0x'' \<and> take 2 (ds @ rest) \<noteq> ''0X'' \<longrightarrow>
        parseInt (ds @ rest) = toNumber (int (digitsValue 10 ds))
        \<and> (int (digitsValue 10 ds) \<le> 2 ^ 53 \<longrightarrow>
             parseInt (ds @ rest) = Some (int (digitsValue 10 ds)))
        \<and> deleteRecord (Some (''Bearer '' @ t)) (ds @ rest) s
            = deleteRecord (Some (''Bearer '' @ t)) ds s
        \<and> (\<forall>n. parseInt (ds @ rest) = Some n \<and> n \<in> id_field ` set (stored s) \<and> writable s \<longrightarrow>
             (\<exists>pre r post. stored s = pre @ r # post \<and> id_field r = n
                \<and> n \<notin> id_field ` set pre
                \<and> deleteRecord (Some (''Bearer '' @ t)) (ds @ rest) s =
                    ((200, Message ''Record deleted successfully''),
                     s\<lparr>fsLog := fsLog s @ [ReadFile, WriteFile (pre @ post)],
                       dataFile := Content (JsonRecords (pre @ post))\<rparr>))))
   \<and> (hs \<noteq> [] \<and> list_all isHexDigit hs \<and> (tail = [] \<or> \<not> isHexDigit (hd tail))
        \<and> (px = ''0x'' \<or> px = ''0X'') \<longrightarrow>
        parseInt (px @ hs @ tail) = toNumber (int (digitsValue 16 hs))
        \<and> (int (digitsValue 16 hs) \<le> 2 ^ 53 \<longrightarrow>
             parseInt (px @ hs @ tail) = Some (int (digitsValue 16 hs))))
   \<and> parseInt ''12abc'' = Some 12"
proof -
  have d: "\<And>p. deleteRecord (Some (''Bearer '' @ t)) p s = removeRecord p s"
    unfolding deleteRecord_def using assms by (rule checkDeveloperAuth_pass)
  have ex: "\<And>k. int k \<le> 2 ^ 53 \<Longrightarrow> toNumber (int k) = Some (int k)"
    by (rule toNumber_exact) simp
  have 1: "fst (fst (removeRecord idParam s)) \<noteq> 400" by (rule removeRecord_not_400)
  have 2: "parseInt idParam = None \<longrightarrow>
        removeRecord idParam s =
          ((404, Message ''Record not found''), s\<lparr>fsLog := fsLog s @ [ReadFile]\<rparr>)"
    by (simp add: removeRecord_missing)
  have 3: "idParam \<noteq> [] \<and> \<not> isDigit (hd idParam) \<and> \<not> isWhiteSpace (hd idParam)
        \<and> hd idParam \<noteq> CHR ''+'' \<and> hd idParam \<noteq> CHR ''-'' \<longrightarrow> parseInt idParam = None"
    using parseInt_no_digit by blast
  have 4: "ds \<noteq> [] \<and> list_all isDigit ds \<and> (rest = [] \<or> \<not> isDigit (hd rest))
        \<and> take 2 (ds @ rest) \<noteq> ''0x'' \<and> take 2 (ds @ rest) \<noteq> ''0X'' \<longrightarrow>
        parseInt (ds @ rest) = toNumber (int (digitsValue 10 ds))
        \<and> (int (digitsValue 10 ds) \<le> 2 ^ 53 \<longrightarrow>
             parseInt (ds @ rest) = Some (int (digitsValue 10 ds)))
        \<and> removeRecord (ds @ rest) s = removeRecord ds s
        \<and> (\<forall>n. parseInt (ds @ rest) = Some n \<and> n \<in> id_field ` set (stored s) \<and> writable s \<longrightarrow>
             (\<exists>pre r post. stored s = pre @ r # post \<and> id_field r = n
                \<and> n \<notin> id_field ` set pre
                \<and> removeRecord (ds @ rest) s =
                    ((200, Message ''Record deleted successfully''),
                     s\<lparr>fsLog := fsLog s @ [ReadFile, WriteFile (pre @ post)],
                       dataFile := Content (JsonRecords (pre @ post))\<rparr>)))"
  proof (intro impI)
    assume a: "ds \<noteq> [] \<and> list_all isDigit ds \<and> (rest = [] \<or> \<not> isDigit (hd rest))
        \<and> take 2 (ds @ rest) \<noteq> ''0x'' \<and> take 2 (ds @ rest) \<noteq> ''0X''"
    then have p: "parseInt (ds @ rest) = toNumber (int (digitsValue 10 ds))"
      by (simp add: parseInt_decimal_prefix)
    have q: "parseInt ds = toNumber (int (digitsValue 10 ds))"
      using a by (simp add: parseInt_digits)
    have c: "removeRecord (ds @ rest) s = removeRecord ds s"
      using p q by (simp add: removeRecord_cong)
    have e: "int (digitsValue 10 ds) \<le> 2 ^ 53 \<longrightarrow>
             parseInt (ds @ rest) = Some (int (digitsValue 10 ds))"
      unfolding p using ex by blast
    have f: "\<forall>n. parseInt (ds @ rest) = Some n \<and> n \<in> id_field ` set (stored s) \<and> writable s \<longrightarrow>
             (\<exists>pre r post. stored s = pre @ r # post \<and> id_field r = n
                \<and> n \<notin> id_field ` set pre
                \<and> removeRecord (ds @ rest) s =
                    ((200, Message ''Record deleted successfully''),
                     s\<lparr>fsLog := fsLog s @ [ReadFile, WriteFile (pre @ post)],
                       dataFile := Content (JsonRecords (pre @ post))\<rparr>))"
    proof (intro allI impI)
      fix n
      assume "parseInt (ds @ rest) = Some n \<and> n \<in> id_field ` set (stored s) \<and> writable s"
      then show "\<exists>pre r post. stored s = pre @ r # post \<and> id_field r = n
                \<and> n \<notin> id_field ` set pre
                \<and> removeRecord (ds @ rest) s =
                    ((200, Message ''Record deleted successfully''),
                     s\<lparr>fsLog := fsLog s @ [ReadFile, WriteFile (pre @ post)],
                       dataFile := Content (JsonRecords (pre @ post))\<rparr>)"
        using removeRecord_found [of "ds @ rest" n s] by auto
    qed
    from p e c f show "parseInt (ds @ rest) = toNumber (int (digitsValue 10 ds))
        \<and> (int (digitsValue 10 ds) \<le> 2 ^ 53 \<longrightarrow>
             parseInt (ds @ rest) = Some (int (digitsValue 10 ds)))
        \<and> removeRecord (ds @ rest) s = removeRecord ds s
        \<and> (\<forall>n. parseInt (ds @ rest) = Some n \<and> n \<in> id_field ` set (stored s) \<and> writable s \<longrightarrow>
             (\<exists>pre r post. stored s = pre @ r # post \<and> id_field r = n
                \<and> n \<notin> id_field ` set pre
                \<and> removeRecord (ds @ rest) s =
                    ((200, Message ''Record deleted successfully''),
                     s\<lparr>fsLog := fsLog s @ [ReadFile, WriteFile (pre @ post)],
                       dataFile := Content (JsonRecords (pre @ post))\<rparr>)))"
      by (intro conjI)
  qed
  have 5: "hs \<noteq> [] \<and> list_all isHexDigit hs \<and> (tail = [] \<or> \<not> isHexDigit (hd tail))
        \<and> (px = ''0x'' \<or> px = ''0X'') \<longrightarrow>
        parseInt (px @ hs @ tail) = toNumber (int (digitsValue 16 hs))
        \<and> (int (digitsValue 16 hs) \<le> 2 ^ 53 \<longrightarrow>
             parseInt (px @ hs @ tail) = Some (int (digitsValue 16 hs)))"
  proof (intro impI)
    assume a: "hs \<noteq> [] \<and> list_all isHexDigit hs \<and> (tail = [] \<or> \<not> isHexDigit (hd tail))
        \<and> (px = ''0x'' \<or> px = ''0X'')"
    then have p: "parseInt (px @ hs @ tail) = toNumber (int (digitsValue 16 hs))"
      by (intro parseInt_hex_prefix) simp_all
    then show "parseInt (px @ hs @ tail) = toNumber (int (digitsValue 16 hs))
        \<and> (int (digitsValue 16 hs) \<le> 2 ^ 53 \<longrightarrow>
             parseInt (px @ hs @ tail) = Some (int (digitsValue 16 hs)))"
      using ex by simp
  qed
  have 6: "parseInt ''12abc'' = Some 12"
    using parseInt_decimal_prefix [of "''12''" "''abc''"]
    by (simp add: isDigit_def digitsValue_def digitVal_def toNumber_exact)
  show ?thesis unfolding d using 1 2 3 4 5 6 by (intro conjI)
qed

theorem delete_id_by_parseInt_witness:
  "parseInt ''abc'' = None
   \<and> deleteRecord (Some (''Bearer '' @ exampleToken)) ''abc''
        (loggedInServer (Content (JsonRecords [exampleRecord 12 ''x''])) True)
      = ((404, Message ''Record not found''),
         (loggedInServer (Content (JsonRecords [exampleRecord 12 ''x''])) True)
           \<lparr>fsLog := fsLog (loggedInServer (Content (JsonRecords [exampleRecord 12 ''x''])) True)
              @ [ReadFile]\<rparr>)
   \<and> parseInt (''12'' @ ''abc'') = Some (int (digitsValue 10 ''12''))
   \<and> deleteRecord (Some (''Bearer '' @ exampleToken)) (''12'' @ ''abc'')
        (loggedInServer (Content (JsonRecords [exampleRecord 12 ''x''])) True)
      = deleteRecord (Some (''Bearer '' @ exampleToken)) ''12''
        (loggedInServer (Content (JsonRecords [exampleRecord 12 ''x''])) True)
   \<and> parseInt (''0X'' @ ''1a'' @ ''-z'') = Some (int (digitsValue 16 ''1a''))"
proof -
  let ?s = "loggedInServer (Content (JsonRecords [exampleRecord 12 ''x''])) True"
  have t: "exampleToken \<in> validTokens ?s" by (simp add: loggedInServer_def)
  have a: "''abc'' \<noteq> [] \<and> \<not> isDigit (hd ''abc'') \<and> \<not> isWhiteSpace (hd ''abc'')
        \<and> hd ''abc'' \<noteq> CHR ''+'' \<and> hd ''abc'' \<noteq> CHR ''-''"
    by (simp add: isDigit_def isWhiteSpace_def)
  have b: "''12'' \<noteq> [] \<and> list_all isDigit ''12'' \<and> (''abc'' = [] \<or> \<not> isDigit (hd ''abc''))
        \<and> take 2 (''12'' @ ''abc'') \<noteq> ''0x'' \<and> take 2 (''12'' @ ''abc'') \<noteq> ''0X''"
    by (simp add: isDigit_def)
  have c: "''1a'' \<noteq> [] \<and> list_all isHexDigit ''1a'' \<and> (''-z'' = [] \<or> \<not> isHexDigit (hd ''-z''))
        \<and> (''0X'' = ''0x'' \<or> ''0X'' = ''0X'')"
    by (simp add: isHexDigit_def)
  have v: "int (digitsValue 10 ''12'') \<le> 2 ^ 53" "int (digitsValue 16 ''1a'') \<le> 2 ^ 53"
    by (simp_all add: digitsValue_def digitVal_def isDigit_def)
  note th = delete_id_by_parseInt [OF exampleToken_ne t, of "''abc''" "''12''" "''abc''" "''1a''"
      "''-z''" "''0X''"]
  note n = th [THEN conjunct2, THEN conjunct2, THEN conjunct1, THEN mp, OF a]
  note m = th [THEN conjunct2, THEN conjunct1, THEN mp, OF n]
  note p = th [THEN conjunct2, THEN conjunct2, THEN conjunct2, THEN conjunct1, THEN mp, OF b]
  note h = th [THEN conjunct2, THEN conjunct2, THEN conjunct2, THEN conjunct2, THEN conjunct1,
      THEN mp, OF c]
  show ?thesis
    by (intro conjI)
      (rule n m p [THEN conjunct2, THEN conjunct1, THEN mp, OF v(1)]
        p [THEN conjunct2, THEN conjunct2, THEN conjunct1]
        h [THEN conjunct2, THEN mp, OF v(2)])+
qed

text \<open>
  C9 as stated fails: in \<open>0x1A\<close> the decimal digits at the start are \<open>0\<close> and a
  character that is no digit follows, but the parameter is read in radix 16 as 26, and the
  record with id 26 is deleted.
\<close>

theorem delete_reads_hexadecimal:
  "takeWhile isDigit ''0x1A'' = ''0''
   \<and> parseInt ''0x1A'' = Some 26
   \<and> deleteRecord exampleHeader ''0x1A''
        (loggedInServer (Content (JsonRecords [exampleRecord 1 ''x'', exampleRecord 26 ''y''])) True)
      = ((200, Message ''Record deleted successfully''),
         (loggedInServer (Content (JsonRecords [exampleRecord 1 ''x'', exampleRecord 26 ''y''])) True)
           \<lparr>fsLog := [ReadFile, WriteFile [exampleRecord 1 ''x'']],
             dataFile := Content (JsonRecords [exampleRecord 1 ''x''])\<rparr>)"
proof -
  have p: "parseInt ''0x1A'' = Some 26"
    using parseInt_hex_prefix [of "''1A''" "[]" "''0x''"]
    by (simp add: isHexDigit_def isDigit_def digitsValue_def digitVal_def toNumber_exact)
  show ?thesis
    by (simp add: p isDigit_def deleteRecord_def checkDeveloperAuth_def bearerToken_def falsy_def
      exampleHeader_def exampleToken_def loggedInServer_def removeRecord_def readRecords_eq
      stored_eq findIndex_def splice1_def writeRecords_def exampleRecord_def Let_def)
qed

section \<open>The ids of the collection\<close>



























section \<open>The calendar\<close>

subsection \<open>The civil date determines the day\<close>












subsection \<open>Padded numbers\<close>






lemma pad_length_ge: "n \<le> length (pad n i)"
  by (simp add: pad_def padStart_def)





subsection \<open>The date string\<close>








subsection \<open>The month of the ISO string\<close>




section \<open>The statistics\<close>

lemma countRecords_invalid:
  assumes "\<exists>r\<in>set rs. parse (date r) = None"
  shows "countRecords parse tz today thisMonth rs counts = Inl RangeError"
  using assms
proof (induction rs arbitrary: counts)
  case Nil
  then show ?case by simp
next
  case (Cons r rs)
  obtain tc mc where c: "counts = (tc, mc)" by (cases counts)
  show ?case
  proof (cases "parse (date r)")
    case None
    then show ?thesis by (simp add: c new_Date_def toISOString_def)
  next
    case (Some t)
    then have "\<exists>r\<in>set rs. parse (date r) = None" using Cons.prems by auto
    then show ?thesis using Some Cons.IH by (simp add: c new_Date_def toISOString_def Let_def)
  qed
qed

text \<open>
  C10. When the stored collection has a record whose date the parser does not recognise,
  the statistics request with a valid token is answered 500: \<open>toISOString\<close> throws a
  \<open>RangeError\<close> in the loop. The file has been read and is not written.
\<close>

theorem stats_invalid_date_500:
  assumes "t \<noteq> []" and "t \<in> validTokens s"
    and "\<exists>r\<in>set (stored s). parse (date r) = None"
  shows "getStats parse tz (Some (''Bearer '' @ t)) s =
           ((500, MessageError ''Error getting statistics'' RangeError),
            s\<lparr>fsLog := fsLog s @ [ReadFile]\<rparr>)"
proof -
  have "getStats parse tz (Some (''Bearer '' @ t)) s = statistics parse tz s"
    unfolding getStats_def using assms(1,2) by (rule checkDeveloperAuth_pass)
  then show ?thesis
    using countRecords_invalid [OF assms(3)]
    by (simp add: statistics_def readRecords_eq toISOString_def Let_def)
qed

theorem stats_invalid_date_500_witness:
  "getStats exampleParse (\<lambda>t. 0) (Some (''Bearer '' @ exampleToken))
      (loggedInServer (Content (JsonRecords
         [exampleRecord 1 ''2024-03-01T08:00:00.000Z'', exampleRecord 2 ''not a date''])) True)
    = ((500, MessageError ''Error getting statistics'' RangeError),
       (loggedInServer (Content (JsonRecords
         [exampleRecord 1 ''2024-03-01T08:00:00.000Z'', exampleRecord 2 ''not a date''])) True)
         \<lparr>fsLog := fsLog (loggedInServer (Content (JsonRecords
         [exampleRecord 1 ''2024-03-01T08:00:00.000Z'', exampleRecord 2 ''not a date''])) True)
           @ [ReadFile]\<rparr>)"
proof -
  let ?s = "loggedInServer (Content (JsonRecords
         [exampleRecord 1 ''2024-03-01T08:00:00.000Z'', exampleRecord 2 ''not a date''])) True"
  have t: "exampleToken \<in> validTokens ?s" by (simp add: loggedInServer_def)
  have "exampleParse ''not a date'' = None" by (simp add: exampleParse_def)
  then have "\<exists>r\<in>set (stored ?s). exampleParse (date r) = None"
    by (simp add: stored_eq loggedInServer_def exampleRecord_def)
  then show ?thesis by (rule stats_invalid_date_500 [OF exampleToken_ne t])
qed

subsection \<open>The counts\<close>







section \<open>The token registry\<close>

subsection \<open>A token determines the time of its issue\<close>

lemma dec_inj: "dec m = dec n \<Longrightarrow> m = n"
  by (metis digitsValue_dec)

lemma showInt_inj:
  assumes "showInt i = showInt j"
  shows "i = j"
proof -
  have nm: "\<And>n. hd (dec n) \<noteq> CHR ''-''"
  proof -
    fix n
    have "hd (dec n) \<in> set (dec n)" using dec_not_Nil by simp
    then have "hd (dec n) \<in> set ''0123456789''" using dec_digits by blast
    then show "hd (dec n) \<noteq> CHR ''-''" by auto
  qed
  consider "i < 0" "j < 0" | "0 \<le> i" "0 \<le> j" | "i < 0" "0 \<le> j" | "0 \<le> i" "j < 0"
    by linarith
  then show ?thesis
  proof cases
    case 1
    then have "dec (nat (- i)) = dec (nat (- j))" using assms by (simp add: showInt_def)
    then have "nat (- i) = nat (- j)" by (rule dec_inj)
    then show ?thesis using 1 by simp
  next
    case 2
    then have "dec (nat i) = dec (nat j)" using assms by (simp add: showInt_def)
    then have "nat i = nat j" by (rule dec_inj)
    then show ?thesis using 2 by simp
  next
    case 3
    then have "CHR ''-'' # dec (nat (- i)) = dec (nat j)" using assms by (simp add: showInt_def)
    then have "hd (dec (nat j)) = CHR ''-''" by (metis list.sel(1))
    then show ?thesis using nm by blast
  next
    case 4
    then have "dec (nat i) = CHR ''-'' # dec (nat (- j))" using assms by (simp add: showInt_def)
    then have "hd (dec (nat i)) = CHR ''-''" by (metis list.sel(1))
    then show ?thesis using nm by blast
  qed
qed

lemma showInt_no_underscore: "CHR ''_'' \<notin> set (showInt i)"
proof -
  have "\<And>n. CHR ''_'' \<notin> set (dec n)" using dec_digits by fastforce
  then show ?thesis by (simp add: showInt_def)
qed

lemma takeWhile_separator: "x \<notin> set a \<Longrightarrow> takeWhile (\<lambda>c. c \<noteq> x) (a @ x # b) = a"
  by (induction a) auto

lemma split_at_separator:
  assumes "a @ x # b = a' @ x # b'" and "x \<notin> set a" and "x \<notin> set a'"
  shows "a = a'"
  using assms takeWhile_separator [of x a b] takeWhile_separator [of x a' b'] by simp

lemma makeToken_time:
  assumes "makeToken t frac = makeToken t' frac'"
  shows "t = t'"
proof -
  have "showInt t @ CHR ''_'' # substr 2 9 (randomString frac)
      = showInt t' @ CHR ''_'' # substr 2 9 (randomString frac')"
    using assms by (simp add: makeToken_def)
  then have "showInt t = showInt t'"
    using showInt_no_underscore [of t] showInt_no_underscore [of t'] by (rule split_at_separator)
  then show ?thesis by (rule showInt_inj)
qed

lemma makeToken_not_Nil: "makeToken t frac \<noteq> []"
  by (simp add: makeToken_def)

subsection \<open>What the handlers leave alone\<close>

lemma same_registry_refl: "same_registry s s"
  by (simp add: same_registry_def)

lemma checkDeveloperAuth_registry:
  assumes "\<And>s. same_registry s (snd (next s))"
  shows "same_registry s (snd (checkDeveloperAuth h next s))"
  using assms by (simp add: checkDeveloperAuth_def Let_def same_registry_refl)

lemma listRecords_registry: "same_registry s (snd (listRecords s))"
  by (simp add: listRecords_def readRecords_eq same_registry_def)

lemma removeRecord_registry: "same_registry s (snd (removeRecord idParam s))"
  by (simp add: removeRecord_def readRecords_eq writeRecords_def same_registry_def Let_def)

lemma statistics_registry: "same_registry s (snd (statistics parse tz s))"
  by (simp add: statistics_def readRecords_eq same_registry_def Let_def
      split: sum.splits prod.splits)

lemma createRecord_registry: "same_registry s (snd (createRecord v l p i s))"
  by (simp add: createRecord_def readRecords_eq writeRecords_def same_registry_def Let_def
      split: sum.splits)

lemma same_registry_inv: "same_registry s s' \<Longrightarrow> token_inv s \<Longrightarrow> token_inv s'"
  by (simp add: same_registry_def token_inv_def)

subsection \<open>The invariant of the registry\<close>

lemma tokenLifetime_pos: "0 < tokenLifetime"
  by (simp add: tokenLifetime_def)

lemma devLogin_cases:
  "devLogin code frac s = ((401, Message ''Invalid developer code''), s)
   \<or> devLogin code frac s =
        ((200, MessageToken ''Developer access granted'' (makeToken (clock s) frac)),
         s\<lparr>validTokens := insert (makeToken (clock s) frac) (validTokens s),
           timers := timers s @ [(clock s + tokenLifetime, makeToken (clock s) frac)]\<rparr>)"
  by (simp add: devLogin_def Let_def)

lemma token_inv_login:
  assumes "token_inv s"
  shows "token_inv (s\<lparr>validTokens := insert (makeToken (clock s) frac) (validTokens s),
           timers := timers s @ [(clock s + tokenLifetime, makeToken (clock s) frac)]\<rparr>)"
  using assms tokenLifetime_pos unfolding token_inv_def by (fastforce)

lemma tick_clock: "clock (tick dt s) = clock s + int dt"
  by (simp add: tick_def Let_def)

lemma tick_validTokens:
  "validTokens (tick dt s)
     = validTokens s - {tok. \<exists>due. (due, tok) \<in> set (timers s) \<and> due \<le> clock s + int dt}"
  by (auto simp: tick_def Let_def image_iff)

lemma tick_timers:
  "set (timers (tick dt s)) = {(due, tok). (due, tok) \<in> set (timers s) \<and> \<not> due \<le> clock s + int dt}"
  by (auto simp: tick_def Let_def)

lemma token_inv_tick:
  assumes "token_inv s"
  shows "token_inv (tick dt s)"
  unfolding token_inv_def
proof (intro conjI ballI)
  fix tok
  assume "tok \<in> validTokens (tick dt s)"
  then have v: "tok \<in> validTokens s"
    and n: "\<not> (\<exists>due. (due, tok) \<in> set (timers s) \<and> due \<le> clock s + int dt)"
    by (simp_all add: tick_validTokens)
  from v assms obtain due where d: "(due, tok) \<in> set (timers s)" by (auto simp: token_inv_def)
  with n have "\<not> due \<le> clock s + int dt" by blast
  with d have "(due, tok) \<in> set (timers (tick dt s))" by (simp add: tick_timers)
  then show "\<exists>due. (due, tok) \<in> set (timers (tick dt s))" by blast
next
  fix x
  assume x: "x \<in> set (timers (tick dt s))"
  obtain due tok where p: "x = (due, tok)" by (cases x)
  with x have d: "(due, tok) \<in> set (timers s)" and l: "\<not> due \<le> clock s + int dt"
    by (simp_all add: tick_timers)
  from d assms obtain t frac where
    "tok = makeToken t frac" "due = t + tokenLifetime" "t \<le> clock s"
    by (fastforce simp: token_inv_def)
  then have "tok = makeToken t frac \<and> due = t + tokenLifetime \<and> t \<le> clock (tick dt s)
      \<and> clock (tick dt s) < due"
    using l by (simp add: tick_clock)
  then show "case x of (due, tok) \<Rightarrow>
      \<exists>t frac. tok = makeToken t frac \<and> due = t + tokenLifetime \<and> t \<le> clock (tick dt s)
        \<and> clock (tick dt s) < due"
    unfolding p by (simp del: ex_simps) blast
qed

lemma token_inv_step: "token_inv s \<Longrightarrow> token_inv (step parse tz ev s)"
proof (cases ev)
  case (DevLogin code frac)
  assume "token_inv s"
  then show ?thesis
    using DevLogin devLogin_cases [of code frac s] token_inv_login [of s frac] by auto
next
  case (GetRecords h)
  assume "token_inv s"
  then show ?thesis using GetRecords
    by (auto simp: getRecords_def intro: same_registry_inv checkDeveloperAuth_registry listRecords_registry)
next
  case (PostRecord v l p i)
  assume "token_inv s"
  then show ?thesis using PostRecord
    by (auto intro: same_registry_inv createRecord_registry)
next
  case (DeleteRecord h idParam)
  assume "token_inv s"
  then show ?thesis using DeleteRecord
    by (auto simp: deleteRecord_def intro: same_registry_inv checkDeveloperAuth_registry removeRecord_registry)
next
  case (GetStats h)
  assume "token_inv s"
  then show ?thesis using GetStats
    by (auto simp: getStats_def intro: same_registry_inv checkDeveloperAuth_registry statistics_registry)
next
  case (Tick dt)
  assume "token_inv s"
  then show ?thesis using Tick by (simp add: token_inv_tick)
qed

lemma run_Nil: "run parse tz [] s = s"
  by (simp add: run_def)

lemma run_snoc: "run parse tz (evs @ [ev]) s = step parse tz ev (run parse tz evs s)"
  by (simp add: run_def)

lemma token_inv_run: "token_inv s \<Longrightarrow> token_inv (run parse tz evs s)"
  by (induction evs rule: rev_induct) (simp_all add: run_Nil run_snoc token_inv_step)

lemma token_inv_started: "started s \<Longrightarrow> token_inv s"
  by (simp add: started_def token_inv_def)

lemma valid_token_not_Nil:
  assumes "token_inv s" and "tok \<in> validTokens s"
  shows "tok \<noteq> []"
proof -
  obtain due where "(due, tok) \<in> set (timers s)" using assms by (auto simp: token_inv_def)
  then obtain t frac where "tok = makeToken t frac" using assms(1) by (fastforce simp: token_inv_def)
  then show ?thesis by (simp add: makeToken_not_Nil)
qed

lemma started_fresh: "started (freshServer f w)"
  by (simp add: started_def freshServer_def)

lemma run_login_example:
  "run parse tz [DevLogin (Some ''letmein'') [10, 11]] (freshServer f w) = loggedInServer f w"
  by (simp add: run_def loggedIn_by_login)

subsection \<open>Authorization\<close>

lemma checkDeveloperAuth_unauthorized:
  assumes "token_inv s"
  shows "checkDeveloperAuth authHeader next s =
     (if unauthorized authHeader s
      then ((401, Message ''Unauthorized - Developer access required''), s)
      else next s)"
proof (cases authHeader)
  case None
  then show ?thesis by (simp add: checkDeveloperAuth_def bearerToken_def falsy_def unauthorized_def)
next
  case (Some h)
  have e: "[] \<notin> validTokens s" using valid_token_not_Nil [OF assms] by blast
  show ?thesis
  proof (cases "take 7 h = ''Bearer ''")
    case True
    then have "h \<noteq> []" by auto
    then show ?thesis using Some True e
      by (auto simp: checkDeveloperAuth_def bearerToken_def falsy_def unauthorized_def Let_def)
  next
    case False
    then show ?thesis using Some
      by (simp add: checkDeveloperAuth_def bearerToken_def falsy_def unauthorized_def)
  qed
qed

text \<open>
  C3. In every state that a started server reaches, each of the three privileged
  requests (list, delete, statistics) is answered 401 with the state unchanged, so before
  any access to the store, when the header is absent, does not start with the scheme
  \<open>Bearer\<close>, or carries a token that is not in the set of valid tokens; otherwise the
  request is the operation itself.
\<close>

theorem privileged_requests_need_token:
  assumes "started s0" and "s = run parse tz evs s0"
  shows "if unauthorized authHeader s
         then getRecords authHeader s
                = ((401, Message ''Unauthorized - Developer access required''), s)
            \<and> deleteRecord authHeader idParam s
                = ((401, Message ''Unauthorized - Developer access required''), s)
            \<and> getStats parse' tz' authHeader s
                = ((401, Message ''Unauthorized - Developer access required''), s)
         else getRecords authHeader s = listRecords s
            \<and> deleteRecord authHeader idParam s = removeRecord idParam s
            \<and> getStats parse' tz' authHeader s = statistics parse' tz' s"
proof -
  have "token_inv s" using assms by (simp add: token_inv_started token_inv_run)
  then show ?thesis
    by (simp add: getRecords_def deleteRecord_def getStats_def checkDeveloperAuth_unauthorized)
qed

theorem privileged_requests_need_token_witness:
  "getRecords None (loggedInServer Absent True)
     = ((401, Message ''Unauthorized - Developer access required''), loggedInServer Absent True)
   \<and> getStats exampleParse (\<lambda>t. 0) (Some ''Basic abc'') (loggedInServer Absent True)
     = ((401, Message ''Unauthorized - Developer access required''), loggedInServer Absent True)
   \<and> deleteRecord (Some ''Bearer dev_token_1_zz'') ''1'' (loggedInServer Absent True)
     = ((401, Message ''Unauthorized - Developer access required''), loggedInServer Absent True)
   \<and> getRecords exampleHeader (loggedInServer Absent True) = listRecords (loggedInServer Absent True)"
proof -
  let ?s = "loggedInServer Absent True"
  have r: "?s = run exampleParse (\<lambda>t. 0) [DevLogin (Some ''letmein'') [10, 11]] (freshServer Absent True)"
    by (simp add: run_login_example)
  note th = privileged_requests_need_token [OF started_fresh r]
  have u: "unauthorized None ?s" "unauthorized (Some ''Basic abc'') ?s"
    "unauthorized (Some ''Bearer dev_token_1_zz'') ?s" "\<not> unauthorized exampleHeader ?s"
    by (simp_all add: unauthorized_def loggedInServer_def exampleHeader_def exampleToken_def)
  show ?thesis
    using th [of None "''1''" exampleParse "\<lambda>t. 0"] th [of "Some ''Basic abc''" "''1''" exampleParse "\<lambda>t. 0"]
      th [of "Some ''Bearer dev_token_1_zz''" "''1''" exampleParse "\<lambda>t. 0"]
      th [of exampleHeader "''1''" exampleParse "\<lambda>t. 0"] u
    by simp
qed

subsection \<open>Expiry\<close>

lemma live_same_registry: "same_registry s s' \<Longrightarrow> live issued tok s \<Longrightarrow> live issued tok s'"
  by (simp add: same_registry_def live_def token_inv_def)

lemma live_login:
  assumes "live issued (makeToken issued frac) s"
  shows "live issued (makeToken issued frac)
           (s\<lparr>validTokens := insert (makeToken (clock s) frac') (validTokens s),
              timers := timers s @ [(clock s + tokenLifetime, makeToken (clock s) frac')]\<rparr>)"
proof -
  let ?s' = "s\<lparr>validTokens := insert (makeToken (clock s) frac') (validTokens s),
              timers := timers s @ [(clock s + tokenLifetime, makeToken (clock s) frac')]\<rparr>"
  have inv: "token_inv ?s'" using assms token_inv_login by (simp add: live_def)
  have "makeToken issued frac \<noteq> makeToken (clock s) frac'" if "issued + tokenLifetime \<le> clock s"
    using that tokenLifetime_pos makeToken_time [of issued frac "clock s" frac'] by auto
  then show ?thesis using assms inv by (simp add: live_def)
qed

lemma live_tick:
  assumes "live issued (makeToken issued frac) s"
  shows "live issued (makeToken issued frac) (tick dt s)"
proof -
  let ?tok = "makeToken issued frac"
  have inv: "token_inv s" and c: "issued \<le> clock s"
    and before: "clock s < issued + tokenLifetime \<Longrightarrow> ?tok \<in> validTokens s"
    and after: "issued + tokenLifetime \<le> clock s \<Longrightarrow> ?tok \<notin> validTokens s"
    using assms by (simp_all add: live_def)
  have due: "due = issued + tokenLifetime" if "(due, ?tok) \<in> set (timers s)" for due
  proof -
    from that inv obtain t fr where "?tok = makeToken t fr" "due = t + tokenLifetime"
      by (fastforce simp: token_inv_def)
    then show ?thesis using makeToken_time [of issued frac t fr] by simp
  qed
  have 1: "?tok \<in> validTokens (tick dt s)" if "clock (tick dt s) < issued + tokenLifetime"
  proof -
    have "clock s < issued + tokenLifetime" using that by (simp add: tick_clock)
    then have "?tok \<in> validTokens s" by (rule before)
    moreover have "\<not> (\<exists>d. (d, ?tok) \<in> set (timers s) \<and> d \<le> clock s + int dt)"
      using due that by (auto simp: tick_clock)
    ultimately show ?thesis by (simp add: tick_validTokens)
  qed
  have 2: "?tok \<notin> validTokens (tick dt s)" if "issued + tokenLifetime \<le> clock (tick dt s)"
  proof (cases "?tok \<in> validTokens s")
    case False
    then show ?thesis by (simp add: tick_validTokens)
  next
    case True
    then obtain d where d: "(d, ?tok) \<in> set (timers s)" using inv by (auto simp: token_inv_def)
    then have "d \<le> clock s + int dt" using due [OF d] that by (simp add: tick_clock)
    then show ?thesis using d by (auto simp: tick_validTokens)
  qed
  show ?thesis
    using token_inv_tick [OF inv] c 1 2 by (simp add: live_def tick_clock)
qed

lemma live_step:
  assumes "live issued (makeToken issued frac) s"
  shows "live issued (makeToken issued frac) (step parse tz ev s)"
proof (cases ev)
  case (DevLogin code frac')
  then show ?thesis
    using assms devLogin_cases [of code frac' s] live_login [OF assms, of frac'] by auto
next
  case (GetRecords h)
  then show ?thesis using assms
    by (auto simp: getRecords_def intro: live_same_registry checkDeveloperAuth_registry listRecords_registry)
next
  case (PostRecord v l p i)
  then show ?thesis using assms by (auto intro: live_same_registry createRecord_registry)
next
  case (DeleteRecord h idParam)
  then show ?thesis using assms
    by (auto simp: deleteRecord_def intro: live_same_registry checkDeveloperAuth_registry removeRecord_registry)
next
  case (GetStats h)
  then show ?thesis using assms
    by (auto simp: getStats_def intro: live_same_registry checkDeveloperAuth_registry statistics_registry)
next
  case (Tick dt)
  then show ?thesis using assms by (simp add: live_tick)
qed

lemma live_run:
  "live issued (makeToken issued frac) s \<Longrightarrow> live issued (makeToken issued frac) (run parse tz evs s)"
  by (induction evs rule: rev_induct) (simp_all add: run_Nil run_snoc live_step)

text \<open>
  C8. A token returned by a successful login, in a state that a started server reaches,
  is in the set of valid tokens right after the login; after any sequence of requests and
  passages of time, it is in the set as long as less than 24 hours have passed since the
  login, and it is not in the set once 24 hours have passed. (No handler removes a token;
  a timer fires when the clock reaches its due time.)
\<close>

theorem token_valid_for_24_hours:
  assumes "started s0" and "s = run parse tz evs s0"
    and "devLogin code frac s = ((200, MessageToken m token), s1)"
  shows "token \<in> validTokens s1
     \<and> (clock (run parse tz evs' s1) < clock s1 + tokenLifetime
          \<longrightarrow> token \<in> validTokens (run parse tz evs' s1))
     \<and> (clock s1 + tokenLifetime \<le> clock (run parse tz evs' s1)
          \<longrightarrow> token \<notin> validTokens (run parse tz evs' s1))"
proof -
  have inv: "token_inv s" using assms(1,2) by (simp add: token_inv_started token_inv_run)
  have tk: "token = makeToken (clock s) frac"
    and s1: "s1 = s\<lparr>validTokens := insert (makeToken (clock s) frac) (validTokens s),
           timers := timers s @ [(clock s + tokenLifetime, makeToken (clock s) frac)]\<rparr>"
    using assms(3) devLogin_cases [of code frac s] by auto
  have c: "clock s1 = clock s" by (simp add: s1)
  have "live (clock s) token s1"
    unfolding live_def using token_inv_login [OF inv, of frac] tokenLifetime_pos
    by (simp add: s1 tk)
  then have "live (clock s) token (run parse tz evs' s1)"
    unfolding tk by (rule live_run)
  then show ?thesis by (simp add: live_def c s1 tk)
qed

theorem token_valid_for_24_hours_witness:
  "exampleToken \<in> validTokens (loggedInServer Absent True)
   \<and> exampleToken \<in> validTokens
        (run exampleParse (\<lambda>t. 0) [Tick 3600000, Tick 82799999] (loggedInServer Absent True))
   \<and> exampleToken \<notin> validTokens
        (run exampleParse (\<lambda>t. 0) [Tick 3600000, Tick 82800000] (loggedInServer Absent True))"
proof -
  let ?s1 = "loggedInServer Absent True"
  note th = token_valid_for_24_hours [OF started_fresh [of Absent True]
      run_Nil [of exampleParse "\<lambda>t. 0", symmetric] loggedIn_by_login]
  have a: "clock (run exampleParse (\<lambda>t. 0) [Tick 3600000, Tick 82799999] ?s1)
            < clock ?s1 + tokenLifetime"
    by (simp add: run_def tick_clock loggedInServer_def tokenLifetime_def)
  have b: "clock ?s1 + tokenLifetime
            \<le> clock (run exampleParse (\<lambda>t. 0) [Tick 3600000, Tick 82800000] ?s1)"
    by (simp add: run_def tick_clock loggedInServer_def tokenLifetime_def)
  show ?thesis
    by (intro conjI)
      (rule th [THEN conjunct1] th [THEN conjunct2, THEN conjunct1, THEN mp, OF a]
        th [THEN conjunct2, THEN conjunct2, THEN mp, OF b])+
qed

end
